theory Spec2Isabelle
  imports Complex_Main "HOL-Library.AList"
begin

section \<open>Python values: errors, subscripts, comprehensions\<close>

text \<open>
  The exceptions that the statements of \<^verbatim>\<open>deepmusic/model.py\<close> and the library
  calls it makes can raise. A computation that may raise returns \<open>error + 'a\<close>,
  with \<open>Inl\<close> for the exception.
\<close>

datatype error = IndexError | AttributeError | TypeError | ValueError

definition bind_r :: "error + 'a \<Rightarrow> ('a \<Rightarrow> error + 'b) \<Rightarrow> error + 'b" where
  "bind_r r f = (case r of Inl e \<Rightarrow> Inl e | Inr x \<Rightarrow> f x)"

text \<open>\<^verbatim>\<open>xs[i]\<close> for an index \<open>i \<ge> 0\<close> (every index of the source comes from
  \<^verbatim>\<open>range\<close>, \<^verbatim>\<open>enumerate\<close> or the literal 0).\<close>

definition subscript :: "'a list \<Rightarrow> nat \<Rightarrow> error + 'a" where
  "subscript xs i = (if i < length xs then Inr (xs ! i) else Inl IndexError)"

text \<open>\<^verbatim>\<open>self.field[i]\<close> where the field may still hold \<^verbatim>\<open>None\<close>, as
  \<^verbatim>\<open>__init__\<close> leaves it before the graph is built.\<close>

definition subscript_field :: "'a list option \<Rightarrow> nat \<Rightarrow> error + 'a" where
  "subscript_field f i = (case f of None \<Rightarrow> Inl TypeError | Some xs \<Rightarrow> subscript xs i)"

text \<open>A list comprehension \<^verbatim>\<open>[f(x) for x in xs]\<close> whose body may raise.\<close>

fun comprehension :: "('a \<Rightarrow> error + 'b) \<Rightarrow> 'a list \<Rightarrow> error + 'b list" where
  "comprehension f [] = Inr []"
| "comprehension f (x # xs) =
     bind_r (f x) (\<lambda>y. bind_r (comprehension f xs) (\<lambda>ys. Inr (y # ys)))"

text \<open>\<^verbatim>\<open>range(n)\<close> for a Python integer \<open>n\<close>: empty when \<open>n \<le> 0\<close>.\<close>

definition py_range :: "int \<Rightarrow> nat list" where
  "py_range n = [0 ..< nat n]"

section \<open>The symbolic graph of the execution engine\<close>

text \<open>
  The model file builds a graph and never computes a number: every call to the
  engine returns a node. A node is a term over the operations the file (and the
  library functions it calls) applies.

  \<^item> Each call of \<^verbatim>\<open>tf.placeholder\<close> creates a new node; the engine makes its name
    unique inside the name scope by the ordinal of the call, which is the third
    argument of \<open>Placeholder\<close>. Two placeholders are the same object exactly when
    scope, name and ordinal agree.
  \<^item> A variable of \<^verbatim>\<open>tf.get_variable\<close> is identified by its scope and name.
  \<^item> The recurrent cell is opaque: applying the cell \<open>c\<close> to an input and a state
    gives the nodes \<open>CellOutput c inp state\<close> and \<open>CellState c inp state\<close>. The
    weights the cell creates for itself live inside these nodes.
\<close>

datatype dtype = Float32

datatype initializer = TruncatedNormalInitializer

datatype rnn_cell = BasicLSTMCell int | MultiRNNCell "rnn_cell list"

datatype tensor =
    Placeholder string string nat dtype "int list"
  | Variable string string "int list" initializer
  | Const real
  | Ones "int list"
  | MatMul tensor tensor
  | Add tensor tensor
  | Sub tensor tensor
  | Mul tensor tensor
  | Div tensor tensor
  | Sigmoid tensor
  | SigmoidCrossEntropyWithLogits tensor tensor
  | AddN "tensor list"
  | ReduceSum tensor
  | BatchDim tensor
  | ZeroState rnn_cell int
  | CellOutput rnn_cell tensor tensor
  | CellState rnn_cell tensor tensor

datatype optimizer = AdamOptimizer real real real real

datatype operation = Minimize optimizer tensor

text \<open>The part of the engine's default graph that the file writes to besides the
  nodes reachable from the model's fields: the variables its own
  \<^verbatim>\<open>tf.get_variable\<close> calls create, and the summaries it registers.\<close>

record graph =
  variables :: "tensor list"
  summaries :: "(string \<times> tensor) list"

section \<open>Configuration, model and batch\<close>

record args =
  batch_size :: int
  sample_length :: int
  hidden_size :: int
  num_layers :: int
  learning_rate :: real
  test :: bool

record model =
  args :: args
  inputs :: "tensor list option"
  targets :: "tensor list option"
  opt_op :: "operation option"
  outputs :: "tensor list option"
  final_state :: "tensor option"

text \<open>Modelled from the spec: the class \<^verbatim>\<open>Batch\<close> of \<^verbatim>\<open>deepmusic.musicdata\<close> is not
  among the sources. The spec describes it as a record exposing an ordered sequence
  of per-step input arrays and, in training mode only, an ordered sequence of
  per-step target arrays. The arrays are opaque values of type \<open>'a\<close>; a record
  without the attribute \<^verbatim>\<open>targets\<close> has \<open>batch_targets = None\<close>.\<close>

record 'a batch =
  batch_inputs :: "'a list"
  batch_targets :: "'a list option"

definition getattr_targets :: "'a batch \<Rightarrow> error + 'a list" where
  "getattr_targets b = (case batch_targets b of None \<Rightarrow> Inl AttributeError | Some ts \<Rightarrow> Inr ts)"

text \<open>What \<^verbatim>\<open>step\<close> puts into the tuple it returns: the field \<^verbatim>\<open>self.opt_op\<close>
  or the field \<^verbatim>\<open>self.outputs\<close>, each with the value it holds.\<close>

datatype handle = OpHandle "operation option" | OutputsHandle "tensor list option"

section \<open>\<^verbatim>\<open>Model.step\<close>\<close>

text \<open>The loop of the training branch (lines 171 to 173). In an assignment
  \<^verbatim>\<open>d[k] = v\<close> Python evaluates \<open>v\<close> before \<open>k\<close>. The dictionary is an association
  list in insertion order; assigning to a key that is present replaces its value.\<close>

fun feed_placeholders ::
  "model \<Rightarrow> 'a batch \<Rightarrow> nat list \<Rightarrow> (tensor \<times> 'a) list \<Rightarrow> error + (tensor \<times> 'a) list" where
  "feed_placeholders self batch [] feed_dict = Inr feed_dict"
| "feed_placeholders self batch (i # rest) feed_dict =
     bind_r (subscript (batch_inputs batch) i) (\<lambda>x.
     bind_r (subscript_field (inputs self) i) (\<lambda>k.
     bind_r (getattr_targets batch) (\<lambda>ts.
     bind_r (subscript ts i) (\<lambda>y.
     bind_r (subscript_field (targets self) i) (\<lambda>k'.
       feed_placeholders self batch rest
         (AList.update k' y (AList.update k x feed_dict)))))))"

text \<open>\<^verbatim>\<open>step\<close> receives the model and the engine's graph and hands both back, so that
  what the call does to them is part of its result. It returns the pair
  \<^verbatim>\<open>(ops, feed_dict)\<close> or the exception raised while binding.\<close>

definition step ::
  "model \<times> graph \<Rightarrow> 'a batch \<Rightarrow> (error + handle list \<times> (tensor \<times> 'a) list) \<times> (model \<times> graph)" where
  "step st batch =
     (let self = fst st in
      if \<not> test (args self) then
        (bind_r (feed_placeholders self batch (py_range (sample_length (args self))) [])
           (\<lambda>feed_dict. Inr ([OpHandle (opt_op self)], feed_dict)), st)
      else
        (bind_r (subscript (batch_inputs batch) 0) (\<lambda>x.
         bind_r (subscript_field (inputs self) 0) (\<lambda>k.
           Inr ([OutputsHandle (outputs self)], AList.update k x []))), st))"

section \<open>The engine's functions that the graph construction calls\<close>

text \<open>
  These functions belong to the execution engine (TensorFlow, in the release that
  still has \<^verbatim>\<open>tf.sub\<close>, \<^verbatim>\<open>tf.mul\<close> and \<^verbatim>\<open>tf.nn.seq2seq\<close>), not to the
  repository. They are written down from the library's code as far as the model file
  depends on it. Of the engine's checks, the ones on the number and the sign of the
  arguments are kept; its shape inference for \<^verbatim>\<open>matmul\<close>, the cell and the loss is
  not modelled.
\<close>

text \<open>\<^verbatim>\<open>tensor_shape.as_shape\<close>: a dimension must not be negative.\<close>

definition as_shape :: "int list \<Rightarrow> error + int list" where
  "as_shape dims = (if list_ex (\<lambda>d. d < 0) dims then Inl ValueError else Inr dims)"

definition placeholder :: "string \<Rightarrow> string \<Rightarrow> nat \<Rightarrow> dtype \<Rightarrow> int list \<Rightarrow> error + tensor" where
  "placeholder scope name k dt dims =
     bind_r (as_shape dims) (\<lambda>s. Inr (Placeholder scope name k dt s))"

text \<open>\<^verbatim>\<open>tf.get_variable\<close> in a scope that does not reuse: creating a variable under
  a name that the graph already has is an error; otherwise the new variable is
  added to the graph.\<close>

fun variable_name :: "tensor \<Rightarrow> (string \<times> string) option" where
  "variable_name (Variable scope name dims ini) = Some (scope, name)"
| "variable_name t = None"

definition get_variable ::
  "graph \<Rightarrow> string \<Rightarrow> string \<Rightarrow> int list \<Rightarrow> initializer \<Rightarrow> error + tensor \<times> graph" where
  "get_variable g scope name dims ini =
     bind_r (as_shape dims) (\<lambda>s.
       if Some (scope, name) \<in> set (map variable_name (variables g)) then Inl ValueError
       else Inr (Variable scope name s ini,
                 g\<lparr>variables := variables g @ [Variable scope name s ini]\<rparr>))"

text \<open>\<^verbatim>\<open>tf.nn.rnn_cell.MultiRNNCell(cells)\<close> refuses an empty list of cells.\<close>

definition multi_rnn_cell :: "rnn_cell list \<Rightarrow> error + rnn_cell" where
  "multi_rnn_cell cells = (if cells = [] then Inl ValueError else Inr (MultiRNNCell cells))"

definition zero_state :: "rnn_cell \<Rightarrow> int \<Rightarrow> tensor" where
  "zero_state c n = ZeroState c n"

text \<open>Calling a cell, \<^verbatim>\<open>cell(inp, state)\<close>, returns its output and its new state.\<close>

definition call_cell :: "rnn_cell \<Rightarrow> tensor \<Rightarrow> tensor \<Rightarrow> tensor \<times> tensor" where
  "call_cell c inp state = (CellOutput c inp state, CellState c inp state)"

text \<open>
  \<^verbatim>\<open>tf.nn.seq2seq.rnn_decoder(decoder_inputs, initial_state, cell, loop_function)\<close>:
  \<^verbatim>\<open>
    state = initial_state; outputs = []; prev = None
    for i, inp in enumerate(decoder_inputs):
      if loop_function is not None and prev is not None:
        inp = loop_function(prev, i)
      output, state = cell(inp, state)
      outputs.append(output)
      if loop_function is not None:
        prev = output
    return outputs, state
  \<close>
\<close>

fun rnn_decoder_loop ::
  "(tensor \<Rightarrow> tensor \<Rightarrow> tensor \<times> tensor) \<Rightarrow> (tensor \<Rightarrow> nat \<Rightarrow> error + tensor) option \<Rightarrow>
   (nat \<times> tensor) list \<Rightarrow> tensor \<Rightarrow> tensor list \<Rightarrow> tensor option \<Rightarrow>
   error + tensor list \<times> tensor" where
  "rnn_decoder_loop cell loop_function [] state outs prev = Inr (outs, state)"
| "rnn_decoder_loop cell loop_function ((i, inp) # rest) state outs prev =
     bind_r (case loop_function of
               None \<Rightarrow> Inr inp
             | Some f \<Rightarrow> (case prev of None \<Rightarrow> Inr inp | Some p \<Rightarrow> f p i))
       (\<lambda>inp'. case cell inp' state of (output, state') \<Rightarrow>
          rnn_decoder_loop cell loop_function rest state' (outs @ [output])
            (case loop_function of None \<Rightarrow> prev | Some f \<Rightarrow> Some output))"

definition rnn_decoder ::
  "tensor list \<Rightarrow> tensor \<Rightarrow> (tensor \<Rightarrow> tensor \<Rightarrow> tensor \<times> tensor) \<Rightarrow>
   (tensor \<Rightarrow> nat \<Rightarrow> error + tensor) option \<Rightarrow> error + tensor list \<times> tensor" where
  "rnn_decoder decoder_inputs initial_state cell loop_function =
     rnn_decoder_loop cell loop_function (enumerate 0 decoder_inputs) initial_state [] None"

text \<open>\<^verbatim>\<open>tf.add_n\<close> needs at least one input.\<close>

definition add_n :: "tensor list \<Rightarrow> error + tensor" where
  "add_n ts = (if ts = [] then Inl ValueError else Inr (AddN ts))"

text \<open>
  \<^verbatim>\<open>tf.nn.seq2seq.sequence_loss_by_example(logits, targets, weights,
  softmax_loss_function=f)\<close>, with \<^verbatim>\<open>average_across_timesteps\<close> at its default True:
  \<^verbatim>\<open>
    if len(targets) != len(logits) or len(weights) != len(logits): raise ValueError
    log_perp_list = []
    for logit, target, weight in zip(logits, targets, weights):
      crossent = f(logit, target)
      log_perp_list.append(crossent * weight)
    log_perps = add_n(log_perp_list)
    total_size = add_n(weights)
    total_size += 1e-12
    log_perps /= total_size
    return log_perps
  \<close>
\<close>

definition log_perp :: "(tensor \<Rightarrow> tensor \<Rightarrow> tensor) \<Rightarrow> tensor \<times> tensor \<times> tensor \<Rightarrow> tensor" where
  "log_perp f = (\<lambda>(logit, target, weight). Mul (f logit target) weight)"

definition sequence_loss_by_example ::
  "tensor list \<Rightarrow> tensor list \<Rightarrow> tensor list \<Rightarrow> (tensor \<Rightarrow> tensor \<Rightarrow> tensor) \<Rightarrow> error + tensor" where
  "sequence_loss_by_example logits tgts weights f =
     (if length tgts \<noteq> length logits \<or> length weights \<noteq> length logits then Inl ValueError
      else
        bind_r (add_n (map (log_perp f) (zip logits (zip tgts weights)))) (\<lambda>log_perps.
        bind_r (add_n weights) (\<lambda>total_size.
          Inr (Div log_perps (Add total_size (Const (1 / 10 ^ 12)))))))"

text \<open>
  \<^verbatim>\<open>tf.nn.seq2seq.sequence_loss\<close>, with \<^verbatim>\<open>average_across_batch\<close> at its default True:
  the sum of the per-example loss over the batch, divided by the batch dimension of
  \<^verbatim>\<open>targets[0]\<close>.
\<close>

definition sequence_loss ::
  "tensor list \<Rightarrow> tensor list \<Rightarrow> tensor list \<Rightarrow> (tensor \<Rightarrow> tensor \<Rightarrow> tensor) \<Rightarrow> error + tensor" where
  "sequence_loss logits tgts weights f =
     bind_r (sequence_loss_by_example logits tgts weights f) (\<lambda>by_example.
     bind_r (subscript tgts 0) (\<lambda>t0.
       Inr (Div (ReduceSum by_example) (BatchDim t0))))"

text \<open>\<^verbatim>\<open>t.get_shape()\<close> is known for the nodes that are created with a shape;
  \<^verbatim>\<open>tf.ones\<close> needs a known shape.\<close>

fun get_shape :: "tensor \<Rightarrow> int list option" where
  "get_shape (Placeholder scope name k dt dims) = Some dims"
| "get_shape (Variable scope name dims ini) = Some dims"
| "get_shape (Ones dims) = Some dims"
| "get_shape t = None"

definition ones :: "int list option \<Rightarrow> error + tensor" where
  "ones s = (case s of None \<Rightarrow> Inl ValueError | Some dims \<Rightarrow> Inr (Ones dims))"

definition scalar_summary :: "graph \<Rightarrow> string \<Rightarrow> tensor \<Rightarrow> graph" where
  "scalar_summary g tag t = g\<lparr>summaries := summaries g @ [(tag, t)]\<rparr>"

section \<open>\<^verbatim>\<open>Model._build_network\<close>\<close>

text \<open>The closure \<^verbatim>\<open>project_note\<close> (lines 86 and 87); the variables \<open>W\<close> and \<open>b\<close> it
  captures are its first two arguments.\<close>

definition project_note :: "tensor \<Rightarrow> tensor \<Rightarrow> tensor \<Rightarrow> tensor" where
  "project_note W b X = Add (MatMul X W) b"

text \<open>The closure \<^verbatim>\<open>loop_rnn\<close> (lines 97 to 111); it captures \<^verbatim>\<open>self\<close> and, through
  \<^verbatim>\<open>project_note\<close>, the variables \<open>W\<close> and \<open>b\<close>.\<close>

definition loop_rnn :: "model \<Rightarrow> tensor \<Rightarrow> tensor \<Rightarrow> tensor \<Rightarrow> nat \<Rightarrow> error + tensor" where
  "loop_rnn self W b prev i =
     (if test (args self) then
        (let out = project_note W b prev;
             out = Sub (Mul (Const 2) (Sigmoid out)) (Const 1)
         in Inr out)
      else subscript_field (inputs self) i)"

text \<open>Lines 60 to 71: the placeholders of the inputs and of the targets.
  \<open>NB_NOTES\<close> stands for \<^verbatim>\<open>music.NB_NOTES\<close>, a constant of
  \<^verbatim>\<open>deepmusic.songstruct\<close>, which is not among the sources.\<close>

definition placeholder_inputs :: "int \<Rightarrow> args \<Rightarrow> error + tensor list" where
  "placeholder_inputs NB_NOTES a =
     comprehension
       (\<lambda>k. placeholder ''placeholder_inputs'' ''input'' k Float32 [batch_size a, NB_NOTES])
       (py_range (sample_length a))"

definition placeholder_targets :: "int \<Rightarrow> args \<Rightarrow> error + tensor list" where
  "placeholder_targets NB_NOTES a =
     comprehension
       (\<lambda>k. placeholder ''placeholder_targets'' ''target'' k Float32 [batch_size a, NB_NOTES])
       (py_range (sample_length a))"

text \<open>Lines 139 to 154, the branch for training: the loss, its summary and the
  optimizer.\<close>

definition training_ops :: "model \<Rightarrow> graph \<Rightarrow> tensor list \<Rightarrow> tensor list \<Rightarrow> error + model \<times> graph" where
  "training_ops self g outs tgts =
     bind_r (comprehension (\<lambda>_. bind_r (subscript tgts 0) (\<lambda>t0. ones (get_shape t0)))
               (py_range (int (length tgts)))) (\<lambda>weights.
     bind_r (sequence_loss outs tgts weights SigmoidCrossEntropyWithLogits) (\<lambda>loss_fct.
       let g = scalar_summary g ''training_loss'' loss_fct;
           opt = AdamOptimizer (learning_rate (args self)) 0.9 0.999 (1 / 10 ^ 8)
       in Inr (self\<lparr>opt_op := Some (Minimize opt loss_fct)\<rparr>, g)))"

definition build_network :: "int \<Rightarrow> model \<Rightarrow> graph \<Rightarrow> error + model \<times> graph" where
  "build_network NB_NOTES self g =
     bind_r (placeholder_inputs NB_NOTES (args self)) (\<lambda>ins.
     let self = self\<lparr>inputs := Some ins\<rparr> in
     bind_r (placeholder_targets NB_NOTES (args self)) (\<lambda>tgts.
     let self = self\<lparr>targets := Some tgts\<rparr> in
     bind_r (get_variable g ''note_projection'' ''weights''
               [hidden_size (args self), NB_NOTES] TruncatedNormalInitializer) (\<lambda>(W, g).
     bind_r (get_variable g ''note_projection'' ''bias''
               [NB_NOTES] TruncatedNormalInitializer) (\<lambda>(b, g).
     bind_r (multi_rnn_cell
               (replicate (nat (num_layers (args self))) (BasicLSTMCell (hidden_size (args self)))))
       (\<lambda>rnn_cell.
     let initial_state = zero_state rnn_cell (batch_size (args self)) in
     bind_r (rnn_decoder ins initial_state (call_cell rnn_cell) (Some (loop_rnn self W b)))
       (\<lambda>(outs, state).
     let self = self\<lparr>final_state := Some state\<rparr>;
         self = self\<lparr>outputs := Some (map (project_note W b) outs)\<rparr>
     in if \<not> test (args self)
        then training_ops self g (map (project_note W b) outs) tgts
        else Inr (self, g)))))))"

text \<open>\<^verbatim>\<open>Model.__init__\<close>, run on an engine whose default graph is still empty.\<close>

definition empty_graph :: graph where
  "empty_graph = \<lparr>variables = [], summaries = []\<rparr>"

definition Model :: "int \<Rightarrow> args \<Rightarrow> error + model \<times> graph" where
  "Model NB_NOTES a =
     build_network NB_NOTES
       \<lparr>args = a, inputs = None, targets = None, opt_op = None, outputs = None,
        final_state = None\<rparr> empty_graph"

section \<open>Reading the graph\<close>

text \<open>
  The claims speak of what a node is computed from and of what is fed to the recurrent
  stack. The functions of this section read these off the graph.
\<close>

text \<open>
  The nodes that a node is computed from, itself included: the part of the graph that
  the engine has to evaluate to obtain it.
\<close>

fun nodes :: "tensor \<Rightarrow> tensor set" where
  "nodes (MatMul x y) = insert (MatMul x y) (nodes x \<union> nodes y)"
| "nodes (Add x y) = insert (Add x y) (nodes x \<union> nodes y)"
| "nodes (Sub x y) = insert (Sub x y) (nodes x \<union> nodes y)"
| "nodes (Mul x y) = insert (Mul x y) (nodes x \<union> nodes y)"
| "nodes (Div x y) = insert (Div x y) (nodes x \<union> nodes y)"
| "nodes (Sigmoid x) = insert (Sigmoid x) (nodes x)"
| "nodes (SigmoidCrossEntropyWithLogits x y) =
     insert (SigmoidCrossEntropyWithLogits x y) (nodes x \<union> nodes y)"
| "nodes (AddN ts) = insert (AddN ts) (\<Union>t \<in> set ts. nodes t)"
| "nodes (ReduceSum x) = insert (ReduceSum x) (nodes x)"
| "nodes (BatchDim x) = insert (BatchDim x) (nodes x)"
| "nodes (CellOutput c x s) = insert (CellOutput c x s) (nodes x \<union> nodes s)"
| "nodes (CellState c x s) = insert (CellState c x s) (nodes x \<union> nodes s)"
| "nodes t = {t}"

fun is_placeholder :: "tensor \<Rightarrow> bool" where
  "is_placeholder (Placeholder scope name k dt dims) = True"
| "is_placeholder t = False"

fun is_variable :: "tensor \<Rightarrow> bool" where
  "is_variable (Variable scope name dims ini) = True"
| "is_variable t = False"

fun is_cell_output :: "tensor \<Rightarrow> bool" where
  "is_cell_output (CellOutput c x s) = True"
| "is_cell_output t = False"

text \<open>
  A node of the form \<^verbatim>\<open>tf.matmul(X, W) + b\<close> is a projection;
  \<open>projection_of\<close> returns the projected node and the two parameters.
\<close>

fun projection_of :: "tensor \<Rightarrow> (tensor \<times> tensor \<times> tensor) option" where
  "projection_of (Add (MatMul X W) b) = Some (X, W, b)"
| "projection_of t = None"

text \<open>
  The input that a cell output was computed from.
\<close>

fun cell_input :: "tensor \<Rightarrow> tensor option" where
  "cell_input (CellOutput c inp state) = Some inp"
| "cell_input t = None"

text \<open>
  The raw recurrent output of time step \<open>t\<close>: the node that the entry
  \<open>t\<close> of \<^verbatim>\<open>self.outputs\<close> projects.
\<close>

definition rnn_output :: "model \<Rightarrow> nat \<Rightarrow> tensor option" where
  "rnn_output self t =
     (case outputs self of
        None \<Rightarrow> None
      | Some outs \<Rightarrow> if t < length outs then map_option fst (projection_of (outs ! t)) else None)"

text \<open>
  The input fed to the recurrent stack at time step \<open>t\<close>.
\<close>

definition rnn_input :: "model \<Rightarrow> nat \<Rightarrow> tensor option" where
  "rnn_input self t = (case rnn_output self t of None \<Rightarrow> None | Some out \<Rightarrow> cell_input out)"

text \<open>
  The value of one entry of a node built from constants, subtraction, multiplication and
  the sigmoid, over the real numbers, given the values \<open>\<rho>\<close> of the
  entry in the other nodes. The engine computes in 32-bit floating point; the reals are
  the idealisation.
\<close>

fun entry_value :: "(tensor \<Rightarrow> real) \<Rightarrow> tensor \<Rightarrow> real" where
  "entry_value \<rho> (Const c) = c"
| "entry_value \<rho> (Sub x y) = entry_value \<rho> x - entry_value \<rho> y"
| "entry_value \<rho> (Mul x y) = entry_value \<rho> x * entry_value \<rho> y"
| "entry_value \<rho> (Sigmoid x) = 1 / (1 + exp (- entry_value \<rho> x))"
| "entry_value \<rho> t = \<rho> t"

text \<open>
  Placeholders and variables are the leaves of the graph.
\<close>

fun is_leaf :: "tensor \<Rightarrow> bool" where
  "is_leaf (Placeholder scope name k dt dims) = True"
| "is_leaf (Variable scope name dims ini) = True"
| "is_leaf t = False"

text \<open>
  The logits, the target and the weight of one per-step term of a sequence loss.
\<close>

fun crossent_step :: "tensor \<Rightarrow> (tensor \<times> tensor \<times> tensor) option" where
  "crossent_step (Mul (SigmoidCrossEntropyWithLogits logit target) weight) =
     Some (logit, target, weight)"
| "crossent_step t = None"

text \<open>
  The per-step terms of a node built by \<open>sequence_loss\<close>.
\<close>

fun loss_terms :: "tensor \<Rightarrow> tensor list" where
  "loss_terms (Div (ReduceSum (Div (AddN ts) total_size)) n) = ts"
| "loss_terms t = []"

text \<open>
  The per-step terms of the loss that the optimizer operation of a model minimizes.
\<close>

definition loss_steps :: "model \<Rightarrow> (tensor \<times> tensor \<times> tensor) option list" where
  "loss_steps self =
     (case opt_op self of
        None \<Rightarrow> []
      | Some (Minimize opt loss) \<Rightarrow> map crossent_step (loss_terms loss))"

section \<open>The constructed model in closed form\<close>

text \<open>
  The definitions of this section are not translations of the source. They name what the
  construction returns, and the lemmas below prove that it returns it.
\<close>

text \<open>
  The placeholders that the two comprehensions of lines 60 to 71 create.
\<close>

definition input_slot :: "int \<Rightarrow> args \<Rightarrow> nat \<Rightarrow> tensor" where
  "input_slot nb a k = Placeholder ''placeholder_inputs'' ''input'' k Float32 [batch_size a, nb]"

definition target_slot :: "int \<Rightarrow> args \<Rightarrow> nat \<Rightarrow> tensor" where
  "target_slot nb a k = Placeholder ''placeholder_targets'' ''target'' k Float32 [batch_size a, nb]"

text \<open>
  What \<open>loop_rnn\<close> returns in generation mode.
\<close>

definition feedback :: "tensor \<Rightarrow> tensor \<Rightarrow> tensor \<Rightarrow> tensor" where
  "feedback W b prev = Sub (Mul (Const 2) (Sigmoid (project_note W b prev))) (Const 1)"

text \<open>
  The decoder unrolled for \<open>n\<close> steps when every input after the first is
  fed back, and the state it ends in.
\<close>

fun generated :: "rnn_cell \<Rightarrow> tensor \<Rightarrow> tensor \<Rightarrow> tensor \<Rightarrow> tensor \<Rightarrow> nat \<Rightarrow> tensor list" where
  "generated c W b inp state 0 = []"
| "generated c W b inp state (Suc n) =
     CellOutput c inp state #
     generated c W b (feedback W b (CellOutput c inp state)) (CellState c inp state) n"

fun generated_state :: "rnn_cell \<Rightarrow> tensor \<Rightarrow> tensor \<Rightarrow> tensor \<Rightarrow> tensor \<Rightarrow> nat \<Rightarrow> tensor" where
  "generated_state c W b inp state 0 = state"
| "generated_state c W b inp state (Suc n) =
     generated_state c W b (feedback W b (CellOutput c inp state)) (CellState c inp state) n"

text \<open>
  The decoder unrolled over given inputs, and the state it ends in.
\<close>

fun forced :: "rnn_cell \<Rightarrow> tensor list \<Rightarrow> tensor \<Rightarrow> tensor list" where
  "forced c [] state = []"
| "forced c (x # xs) state = CellOutput c x state # forced c xs (CellState c x state)"

fun forced_state :: "rnn_cell \<Rightarrow> tensor list \<Rightarrow> tensor \<Rightarrow> tensor" where
  "forced_state c [] state = state"
| "forced_state c (x # xs) state = forced_state c xs (CellState c x state)"

text \<open>
  The two variables of the scope \<^verbatim>\<open>note_projection\<close>, the cell
  and the number of time steps of a configuration.
\<close>

definition projection_weights :: "int \<Rightarrow> args \<Rightarrow> tensor" where
  "projection_weights nb a =
     Variable ''note_projection'' ''weights'' [hidden_size a, nb] TruncatedNormalInitializer"

definition projection_bias :: "int \<Rightarrow> tensor" where
  "projection_bias nb = Variable ''note_projection'' ''bias'' [nb] TruncatedNormalInitializer"

definition stacked_cell :: "args \<Rightarrow> rnn_cell" where
  "stacked_cell a = MultiRNNCell (replicate (nat (num_layers a)) (BasicLSTMCell (hidden_size a)))"

definition slots :: "args \<Rightarrow> nat" where
  "slots a = nat (sample_length a)"

text \<open>
  The outputs and the final state of the decoder, the projected outputs and the loss in
  closed form.
\<close>

definition recurrent_outputs :: "int \<Rightarrow> args \<Rightarrow> tensor list" where
  "recurrent_outputs nb a =
     (if test a
      then generated (stacked_cell a) (projection_weights nb a) (projection_bias nb)
             (input_slot nb a 0) (ZeroState (stacked_cell a) (batch_size a)) (slots a)
      else forced (stacked_cell a) (map (input_slot nb a) [0 ..< slots a])
             (ZeroState (stacked_cell a) (batch_size a)))"

definition recurrent_state :: "int \<Rightarrow> args \<Rightarrow> tensor" where
  "recurrent_state nb a =
     (if test a
      then generated_state (stacked_cell a) (projection_weights nb a) (projection_bias nb)
             (input_slot nb a 0) (ZeroState (stacked_cell a) (batch_size a)) (slots a)
      else forced_state (stacked_cell a) (map (input_slot nb a) [0 ..< slots a])
             (ZeroState (stacked_cell a) (batch_size a)))"

definition projected_outputs :: "int \<Rightarrow> args \<Rightarrow> tensor list" where
  "projected_outputs nb a =
     map (project_note (projection_weights nb a) (projection_bias nb)) (recurrent_outputs nb a)"

definition loss_node :: "int \<Rightarrow> args \<Rightarrow> tensor" where
  "loss_node nb a =
     Div (ReduceSum
            (Div (AddN (map (\<lambda>t. Mul (SigmoidCrossEntropyWithLogits
                                        (projected_outputs nb a ! t) (target_slot nb a t))
                                     (Ones [batch_size a, nb]))
                          [0 ..< slots a]))
                 (Add (AddN (replicate (slots a) (Ones [batch_size a, nb])))
                      (Const (1 / 10 ^ 12)))))
         (BatchDim (target_slot nb a 0))"

definition adam :: "args \<Rightarrow> optimizer" where
  "adam a = AdamOptimizer (learning_rate a) 0.9 0.999 (1 / 10 ^ 8)"

text \<open>
  The model and the graph that a successful construction returns.
\<close>

definition built_model :: "int \<Rightarrow> args \<Rightarrow> model" where
  "built_model nb a =
     \<lparr>args = a,
      inputs = Some (map (input_slot nb a) [0 ..< slots a]),
      targets = Some (map (target_slot nb a) [0 ..< slots a]),
      opt_op = (if test a then None else Some (Minimize (adam a) (loss_node nb a))),
      outputs = Some (projected_outputs nb a),
      final_state = Some (recurrent_state nb a)\<rparr>"

definition built_graph :: "int \<Rightarrow> args \<Rightarrow> graph" where
  "built_graph nb a =
     \<lparr>variables = [projection_weights nb a, projection_bias nb],
      summaries = (if test a then [] else [(''training_loss'', loss_node nb a)])\<rparr>"

text \<open>
  The spec calls a configuration valid when its sizes are positive. The construction
  succeeds on more configurations, those that are \<open>constructible\<close>.
\<close>

definition valid_configuration :: "int \<Rightarrow> args \<Rightarrow> bool" where
  "valid_configuration nb a \<longleftrightarrow>
     0 < batch_size a \<and> 0 < sample_length a \<and> 0 < hidden_size a \<and> 0 < num_layers a \<and> 0 < nb"

definition constructible :: "int \<Rightarrow> args \<Rightarrow> bool" where
  "constructible nb a \<longleftrightarrow>
     0 \<le> nb \<and> 0 \<le> hidden_size a \<and> 0 < num_layers a \<and>
     (batch_size a < 0 \<longrightarrow> sample_length a \<le> 0) \<and> (test a \<or> 0 < sample_length a)"

text \<open>
  The feed dictionary of the training branch, in insertion order.
\<close>

definition bindings ::
  "(nat \<Rightarrow> tensor) \<Rightarrow> (nat \<Rightarrow> 'a) \<Rightarrow> (nat \<Rightarrow> tensor) \<Rightarrow> (nat \<Rightarrow> 'a) \<Rightarrow> nat list \<Rightarrow> (tensor \<times> 'a) list" where
  "bindings I X T Y is = concat (map (\<lambda>i. [(I i, X i), (T i, Y i)]) is)"

section \<open>Scenarios\<close>

text \<open>
  The two scenarios of the spec, with a learning rate and with 88 for
  \<^verbatim>\<open>music.NB_NOTES\<close>, and a batch of four input and four target
  arrays.
\<close>

definition scenario_generation :: args where
  "scenario_generation =
     \<lparr>batch_size = 1, sample_length = 4, hidden_size = 8, num_layers = 1,
      learning_rate = 1 / 1000, test = True\<rparr>"

definition scenario_training :: args where
  "scenario_training =
     \<lparr>batch_size = 1, sample_length = 4, hidden_size = 8, num_layers = 1,
      learning_rate = 1 / 1000, test = False\<rparr>"

definition scenario_batch :: "nat batch" where
  "scenario_batch = \<lparr>batch_inputs = [10, 11, 12, 13], batch_targets = Some [20, 21, 22, 23]\<rparr>"

section \<open>The construction\<close>

lemma bind_r_Inr_iff: "bind_r r f = Inr y \<longleftrightarrow> (\<exists>x. r = Inr x \<and> f x = Inr y)"
  by (cases r) (simp_all add: bind_r_def)

lemma bind_r_Inr [simp]: "bind_r (Inr x) f = f x"
  by (simp add: bind_r_def)

lemma bind_r_Inl [simp]: "bind_r (Inl e) f = Inl e"
  by (simp add: bind_r_def)

lemma comprehension_Inr:
  "comprehension f xs = Inr ys \<Longrightarrow> length ys = length xs \<and> (\<forall>i < length xs. f (xs ! i) = Inr (ys ! i))"
proof (induction xs arbitrary: ys)
  case Nil
  then show ?case by simp
next
  case (Cons x xs)
  from Cons.prems obtain y ys' where y: "f x = Inr y" and ys': "comprehension f xs = Inr ys'"
    and ys: "ys = y # ys'"
    by (auto simp: bind_r_Inr_iff)
  from Cons.IH [OF ys'] y ys show ?case
    by (auto simp: nth_Cons split: nat.splits)
qed

lemma comprehension_map:
  "(\<And>x. x \<in> set xs \<Longrightarrow> f x = Inr (h x)) \<Longrightarrow> comprehension f xs = Inr (map h xs)"
  by (induction xs) simp_all

lemma comprehension_Inl:
  "x \<in> set xs \<Longrightarrow> (\<And>x. x \<in> set xs \<Longrightarrow> f x = Inl e) \<Longrightarrow> comprehension f xs = Inl e"
  by (cases xs) auto

lemma placeholder_inputs_Inr:
  assumes "placeholder_inputs nb a = Inr ins"
  shows "ins = map (input_slot nb a) [0 ..< nat (sample_length a)]"
proof -
  let ?f = "\<lambda>k. placeholder ''placeholder_inputs'' ''input'' k Float32 [batch_size a, nb]"
  from assms have c: "comprehension ?f [0 ..< nat (sample_length a)] = Inr ins"
    by (simp add: placeholder_inputs_def py_range_def)
  from comprehension_Inr [OF c]
  have len: "length ins = nat (sample_length a)"
    and el: "\<And>i. i < nat (sample_length a) \<Longrightarrow> ?f i = Inr (ins ! i)"
    by auto
  have "ins ! i = input_slot nb a i" if "i < nat (sample_length a)" for i
    using el [OF that]
    by (auto simp: placeholder_def input_slot_def as_shape_def bind_r_Inr_iff split: if_splits)
  with len show ?thesis
    by (intro nth_equalityI) simp_all
qed

lemma placeholder_inputs_ok:
  assumes "0 \<le> batch_size a" "0 \<le> nb"
  shows "placeholder_inputs nb a = Inr (map (input_slot nb a) [0 ..< nat (sample_length a)])"
  unfolding placeholder_inputs_def py_range_def
  by (rule comprehension_map) (use assms in \<open>simp add: placeholder_def as_shape_def input_slot_def\<close>)

lemma scaled_sigmoid_bounds:
  "- 1 \<le> entry_value \<rho> (Sub (Mul (Const 2) (Sigmoid x)) (Const 1)) \<and>
   entry_value \<rho> (Sub (Mul (Const 2) (Sigmoid x)) (Const 1)) \<le> 1"
proof -
  define e where "e = exp (- entry_value \<rho> x)"
  have e: "0 < e" by (simp add: e_def)
  then have "0 \<le> 1 / (1 + e)" "1 / (1 + e) \<le> 1"
    by (simp_all add: divide_simps)
  then show ?thesis
    by (simp add: e_def)
qed

lemma loop_rnn_test: "test (args self) \<Longrightarrow> loop_rnn self W b prev i = Inr (feedback W b prev)"
  by (simp add: loop_rnn_def feedback_def)

lemma loop_rnn_train:
  "\<not> test (args self) \<Longrightarrow> inputs self = Some ins \<Longrightarrow> i < length ins \<Longrightarrow>
   loop_rnn self W b prev i = Inr (ins ! i)"
  by (simp add: loop_rnn_def subscript_field_def subscript_def)

lemma call_cell_eq: "call_cell c x s = (CellOutput c x s, CellState c x s)"
  by (simp add: call_cell_def)

lemma decoder_loop_Cons:
  assumes "(case prev of None \<Rightarrow> Inr inp | Some p \<Rightarrow> f p i) = Inr inp'"
    and "cell inp' state = (out, state')"
  shows "rnn_decoder_loop cell (Some f) ((i, inp) # rest) state outs prev =
         rnn_decoder_loop cell (Some f) rest state' (outs @ [out]) (Some out)"
  using assms by simp

lemma decoder_loop_fed_back:
  assumes cell: "\<And>x s. cell x s = (CellOutput c x s, CellState c x s)"
    and f: "\<And>p i. f p i = Inr (feedback W b p)"
  shows "rnn_decoder_loop cell (Some f) (enumerate k xs) state outs (Some p) =
         Inr (outs @ generated c W b (feedback W b p) state (length xs),
              generated_state c W b (feedback W b p) state (length xs))"
proof (induction xs arbitrary: k state outs p)
  case Nil
  show ?case by simp
next
  case (Cons x xs)
  let ?inp = "feedback W b p"
  have "rnn_decoder_loop cell (Some f) (enumerate k (x # xs)) state outs (Some p) =
        rnn_decoder_loop cell (Some f) (enumerate (Suc k) xs) (CellState c ?inp state)
          (outs @ [CellOutput c ?inp state]) (Some (CellOutput c ?inp state))"
    unfolding enumerate_simps
    by (rule decoder_loop_Cons [where inp' = ?inp]) (simp_all only: option.case f cell)
  also have "\<dots> = Inr ((outs @ [CellOutput c ?inp state]) @
                 generated c W b (feedback W b (CellOutput c ?inp state)) (CellState c ?inp state) (length xs),
               generated_state c W b (feedback W b (CellOutput c ?inp state)) (CellState c ?inp state) (length xs))"
    by (rule Cons.IH)
  finally show ?case by simp
qed

lemma rnn_decoder_test:
  assumes "test (args self)"
  shows "rnn_decoder ins state (call_cell c) (Some (loop_rnn self W b)) =
         Inr (generated c W b (ins ! 0) state (length ins),
              generated_state c W b (ins ! 0) state (length ins))"
proof (cases ins)
  case Nil
  then show ?thesis by (simp add: rnn_decoder_def)
next
  case (Cons x xs)
  have "rnn_decoder_loop (call_cell c) (Some (loop_rnn self W b)) (enumerate (Suc 0) xs)
          (CellState c x state) [CellOutput c x state] (Some (CellOutput c x state)) =
        Inr ([CellOutput c x state] @
               generated c W b (feedback W b (CellOutput c x state)) (CellState c x state) (length xs),
             generated_state c W b (feedback W b (CellOutput c x state)) (CellState c x state) (length xs))"
    by (rule decoder_loop_fed_back) (simp_all add: call_cell_eq loop_rnn_test [OF assms])
  with Cons show ?thesis
    by (simp add: rnn_decoder_def call_cell_eq)
qed

lemma decoder_loop_forced:
  assumes cell: "\<And>x s. cell x s = (CellOutput c x s, CellState c x s)"
    and f: "\<And>p i. i < length ins \<Longrightarrow> f p i = Inr (ins ! i)"
  shows "xs = drop k ins \<Longrightarrow>
         rnn_decoder_loop cell (Some f) (enumerate k xs) state outs prev =
         Inr (outs @ forced c xs state, forced_state c xs state)"
proof (induction xs arbitrary: k state outs prev)
  case Nil
  show ?case by simp
next
  case (Cons x xs)
  from Cons.prems have k: "k < length ins"
    by (cases "k < length ins") simp_all
  from Cons.prems have x: "ins ! k = x"
    by (metis nth_via_drop)
  from Cons.prems have xs: "xs = drop (Suc k) ins"
    by (metis drop_Suc list.sel(3) tl_drop)
  have inp: "(case prev of None \<Rightarrow> Inr x | Some p \<Rightarrow> f p k) = Inr x"
    using f [OF k] x by (cases prev) simp_all
  have "rnn_decoder_loop cell (Some f) (enumerate k (x # xs)) state outs prev =
        rnn_decoder_loop cell (Some f) (enumerate (Suc k) xs) (CellState c x state)
          (outs @ [CellOutput c x state]) (Some (CellOutput c x state))"
    unfolding enumerate_simps
    by (rule decoder_loop_Cons [where inp' = x]) (simp_all only: inp cell)
  also have "\<dots> = Inr ((outs @ [CellOutput c x state]) @ forced c xs (CellState c x state),
                       forced_state c xs (CellState c x state))"
    by (rule Cons.IH [OF xs])
  finally show ?case by simp
qed

lemma rnn_decoder_train:
  assumes "\<not> test (args self)" and "inputs self = Some ins"
  shows "rnn_decoder ins state (call_cell c) (Some (loop_rnn self W b)) =
         Inr (forced c ins state, forced_state c ins state)"
proof -
  have "rnn_decoder_loop (call_cell c) (Some (loop_rnn self W b)) (enumerate 0 ins) state [] None =
        Inr ([] @ forced c ins state, forced_state c ins state)"
    by (rule decoder_loop_forced [where ins = ins])
      (simp_all add: call_cell_eq loop_rnn_train [OF assms])
  then show ?thesis
    by (simp add: rnn_decoder_def)
qed

lemma length_generated [simp]: "length (generated c W b inp state n) = n"
  by (induction n arbitrary: inp state) simp_all

lemma length_forced [simp]: "length (forced c xs state) = length xs"
  by (induction xs arbitrary: state) simp_all

lemma forced_nth:
  "t < length xs \<Longrightarrow> forced c xs state ! t = CellOutput c (xs ! t) (forced_state c (take t xs) state)"
proof (induction xs arbitrary: state t)
  case Nil
  then show ?case by simp
next
  case (Cons x xs)
  then show ?case by (cases t) simp_all
qed

lemma generated_0:
  "0 < n \<Longrightarrow> generated c W b inp state n ! 0 = CellOutput c inp state"
  by (cases n) simp_all

lemma generated_Suc:
  "Suc t < n \<Longrightarrow>
   \<exists>s. generated c W b inp state n ! Suc t =
        CellOutput c (feedback W b (generated c W b inp state n ! t)) s"
proof (induction n arbitrary: inp state t)
  case 0
  then show ?case by simp
next
  case (Suc n)
  show ?case
  proof (cases t)
    case 0
    with Suc.prems show ?thesis
      by (cases n) simp_all
  next
    case (Suc t')
    with Suc.prems have "Suc t' < n" by simp
    from Suc.IH [OF this] Suc show ?thesis by simp
  qed
qed

lemma placeholder_targets_Inr:
  assumes "placeholder_targets nb a = Inr tgts"
  shows "tgts = map (target_slot nb a) [0 ..< slots a]"
proof -
  let ?f = "\<lambda>k. placeholder ''placeholder_targets'' ''target'' k Float32 [batch_size a, nb]"
  from assms have c: "comprehension ?f [0 ..< nat (sample_length a)] = Inr tgts"
    by (simp add: placeholder_targets_def py_range_def)
  from comprehension_Inr [OF c]
  have len: "length tgts = nat (sample_length a)"
    and el: "\<And>i. i < nat (sample_length a) \<Longrightarrow> ?f i = Inr (tgts ! i)"
    by auto
  have "tgts ! i = target_slot nb a i" if "i < nat (sample_length a)" for i
    using el [OF that]
    by (auto simp: placeholder_def target_slot_def as_shape_def bind_r_Inr_iff split: if_splits)
  with len show ?thesis
    by (intro nth_equalityI) (simp_all add: slots_def)
qed

lemma length_recurrent_outputs [simp]: "length (recurrent_outputs nb a) = slots a"
  by (simp add: recurrent_outputs_def)

lemma length_projected_outputs [simp]: "length (projected_outputs nb a) = slots a"
  by (simp add: projected_outputs_def)

lemma weights_comprehension:
  assumes "0 < n"
  shows "comprehension (\<lambda>_. bind_r (subscript (map (target_slot nb a) [0 ..< n]) 0)
                               (\<lambda>t0. ones (get_shape t0)))
           (py_range (int (length (map (target_slot nb a) [0 ..< n])))) =
         Inr (replicate n (Ones [batch_size a, nb]))"
proof -
  have "comprehension (\<lambda>_. bind_r (subscript (map (target_slot nb a) [0 ..< n]) 0)
                               (\<lambda>t0. ones (get_shape t0))) [0 ..< n] =
        Inr (map (\<lambda>_. Ones [batch_size a, nb]) [0 ..< n])"
    by (rule comprehension_map) (use assms in \<open>simp add: subscript_def target_slot_def ones_def\<close>)
  then show ?thesis
    by (simp add: py_range_def map_replicate_const)
qed

lemma log_perp_zip:
  assumes "length outs = n"
  shows "map (log_perp f) (zip outs (zip (map g [0 ..< n]) (replicate n w))) =
         map (\<lambda>t. Mul (f (outs ! t) (g t)) w) [0 ..< n]"
  by (rule nth_equalityI) (use assms in \<open>simp_all add: log_perp_def\<close>)

lemma sequence_loss_nonempty:
  assumes "0 < slots a"
  shows "sequence_loss (projected_outputs nb a) (map (target_slot nb a) [0 ..< slots a])
           (replicate (slots a) (Ones [batch_size a, nb])) SigmoidCrossEntropyWithLogits =
         Inr (loss_node nb a)"
proof -
  have ne: "projected_outputs nb a \<noteq> []"
    using assms length_projected_outputs [of nb a] by (cases "projected_outputs nb a") simp_all
  have "sequence_loss_by_example (projected_outputs nb a) (map (target_slot nb a) [0 ..< slots a])
          (replicate (slots a) (Ones [batch_size a, nb])) SigmoidCrossEntropyWithLogits =
        Inr (Div (AddN (map (\<lambda>t. Mul (SigmoidCrossEntropyWithLogits
                                        (projected_outputs nb a ! t) (target_slot nb a t))
                                     (Ones [batch_size a, nb]))
                          [0 ..< slots a]))
                 (Add (AddN (replicate (slots a) (Ones [batch_size a, nb])))
                      (Const (1 / 10 ^ 12))))"
    using assms ne
    by (simp add: sequence_loss_by_example_def add_n_def log_perp_zip)
  then show ?thesis
    using assms by (simp add: sequence_loss_def subscript_def loss_node_def)
qed

lemma training_ops_Inr:
  assumes "training_ops self g (projected_outputs nb a) (map (target_slot nb a) [0 ..< slots a]) =
           Inr (m, g')"
  shows "0 < slots a \<and>
         m = self\<lparr>opt_op := Some (Minimize (adam (args self)) (loss_node nb a))\<rparr> \<and>
         g' = g\<lparr>summaries := summaries g @ [(''training_loss'', loss_node nb a)]\<rparr>"
proof (cases "0 < slots a")
  case True
  have "training_ops self g (projected_outputs nb a) (map (target_slot nb a) [0 ..< slots a]) =
        Inr (self\<lparr>opt_op := Some (Minimize (adam (args self)) (loss_node nb a))\<rparr>,
             g\<lparr>summaries := summaries g @ [(''training_loss'', loss_node nb a)]\<rparr>)"
    unfolding training_ops_def weights_comprehension [OF True]
    by (simp add: sequence_loss_nonempty [OF True] scalar_summary_def adam_def)
  with assms True show ?thesis by simp
next
  case False
  then have "training_ops self g (projected_outputs nb a) (map (target_slot nb a) [0 ..< slots a]) =
             Inl ValueError"
    by (simp add: training_ops_def py_range_def sequence_loss_def sequence_loss_by_example_def
        add_n_def projected_outputs_def recurrent_outputs_def)
  with assms show ?thesis by simp
qed

lemma get_variable_weights:
  assumes "get_variable empty_graph ''note_projection'' ''weights'' [h, nb] TruncatedNormalInitializer =
           Inr (W, g)"
  shows "W = Variable ''note_projection'' ''weights'' [h, nb] TruncatedNormalInitializer \<and>
         g = \<lparr>variables = [W], summaries = []\<rparr>"
  using assms
  by (auto simp: get_variable_def empty_graph_def as_shape_def bind_r_Inr_iff split: if_splits)

lemma get_variable_bias:
  assumes "get_variable \<lparr>variables = [Variable ''note_projection'' ''weights'' dims ini], summaries = []\<rparr>
             ''note_projection'' ''bias'' [nb] TruncatedNormalInitializer = Inr (b, g)"
  shows "b = Variable ''note_projection'' ''bias'' [nb] TruncatedNormalInitializer \<and>
         g = \<lparr>variables = [Variable ''note_projection'' ''weights'' dims ini,
                          Variable ''note_projection'' ''bias'' [nb] TruncatedNormalInitializer],
              summaries = []\<rparr>"
  using assms
  by (auto simp: get_variable_def as_shape_def bind_r_Inr_iff split: if_splits)

lemma multi_rnn_cell_Inr:
  "multi_rnn_cell (replicate (nat (num_layers a)) (BasicLSTMCell (hidden_size a))) = Inr c \<Longrightarrow>
   c = stacked_cell a"
  by (auto simp: multi_rnn_cell_def stacked_cell_def split: if_splits)

lemma rnn_decoder_built:
  assumes "args self = a" and "inputs self = Some (map (input_slot nb a) [0 ..< slots a])"
  shows "rnn_decoder (map (input_slot nb a) [0 ..< slots a]) (ZeroState (stacked_cell a) (batch_size a))
           (call_cell (stacked_cell a)) (Some (loop_rnn self (projection_weights nb a) (projection_bias nb))) =
         Inr (recurrent_outputs nb a, recurrent_state nb a)"
proof (cases "test a")
  case True
  then have t: "test (args self)" using assms by simp
  show ?thesis
  proof (cases "slots a")
    case 0
    then show ?thesis
      by (simp add: rnn_decoder_test [OF t] recurrent_outputs_def recurrent_state_def True)
  next
    case (Suc n)
    then have "map (input_slot nb a) [0 ..< slots a] ! 0 = input_slot nb a 0"
      by (simp add: upt_conv_Cons del: upt_Suc)
    then show ?thesis
      by (simp add: rnn_decoder_test [OF t] recurrent_outputs_def recurrent_state_def True)
  qed
next
  case False
  then have t: "\<not> test (args self)" using assms by simp
  show ?thesis
    by (simp add: rnn_decoder_train [OF t assms(2)] recurrent_outputs_def recurrent_state_def False)
qed

lemma build_network_steps:
  assumes "Model nb a = Inr (m, g)"
  obtains ins tgts W g1 b g2 c outs st where
    "placeholder_inputs nb a = Inr ins" and
    "placeholder_targets nb a = Inr tgts" and
    "get_variable empty_graph ''note_projection'' ''weights'' [hidden_size a, nb]
       TruncatedNormalInitializer = Inr (W, g1)" and
    "get_variable g1 ''note_projection'' ''bias'' [nb] TruncatedNormalInitializer = Inr (b, g2)" and
    "multi_rnn_cell (replicate (nat (num_layers a)) (BasicLSTMCell (hidden_size a))) = Inr c" and
    "rnn_decoder ins (zero_state c (batch_size a)) (call_cell c)
       (Some (loop_rnn \<lparr>args = a, inputs = Some ins, targets = Some tgts, opt_op = None,
                        outputs = None, final_state = None\<rparr> W b)) = Inr (outs, st)" and
    "test a \<Longrightarrow>
       m = \<lparr>args = a, inputs = Some ins, targets = Some tgts, opt_op = None,
            outputs = Some (map (project_note W b) outs), final_state = Some st\<rparr> \<and> g = g2" and
    "\<not> test a \<Longrightarrow>
       training_ops \<lparr>args = a, inputs = Some ins, targets = Some tgts, opt_op = None,
                     outputs = Some (map (project_note W b) outs), final_state = Some st\<rparr> g2
         (map (project_note W b) outs) tgts = Inr (m, g)"
proof (cases "test a")
  case True
  with assms that show thesis
    unfolding Model_def build_network_def
    by (auto simp: bind_r_Inr_iff Let_def split: prod.splits)
next
  case False
  with assms that show thesis
    unfolding Model_def build_network_def
    by (auto simp: bind_r_Inr_iff Let_def split: prod.splits)
qed

lemma Model_Inr:
  assumes "Model nb a = Inr (m, g)"
  shows "m = built_model nb a \<and> g = built_graph nb a \<and> (\<not> test a \<longrightarrow> 0 < slots a)"
proof (rule build_network_steps [OF assms])
  let ?ins = "map (input_slot nb a) [0 ..< slots a]"
  let ?tgts = "map (target_slot nb a) [0 ..< slots a]"
  let ?self2 = "\<lparr>args = a, inputs = Some ?ins, targets = Some ?tgts, opt_op = None,
                 outputs = None, final_state = None\<rparr>"
  let ?W = "projection_weights nb a"
  let ?b = "projection_bias nb"
  let ?g = "\<lparr>variables = [?W, ?b], summaries = []\<rparr>"
  let ?self4 = "\<lparr>args = a, inputs = Some ?ins, targets = Some ?tgts, opt_op = None,
                 outputs = Some (projected_outputs nb a), final_state = Some (recurrent_state nb a)\<rparr>"
  fix ins tgts W g1 b g2 c outs st
  assume ins: "placeholder_inputs nb a = Inr ins" and
    tgts: "placeholder_targets nb a = Inr tgts" and
    W: "get_variable empty_graph ''note_projection'' ''weights'' [hidden_size a, nb]
          TruncatedNormalInitializer = Inr (W, g1)" and
    b: "get_variable g1 ''note_projection'' ''bias'' [nb] TruncatedNormalInitializer = Inr (b, g2)" and
    c: "multi_rnn_cell (replicate (nat (num_layers a)) (BasicLSTMCell (hidden_size a))) = Inr c" and
    dec: "rnn_decoder ins (zero_state c (batch_size a)) (call_cell c)
            (Some (loop_rnn \<lparr>args = a, inputs = Some ins, targets = Some tgts, opt_op = None,
                             outputs = None, final_state = None\<rparr> W b)) = Inr (outs, st)" and
    gen: "test a \<Longrightarrow>
            m = \<lparr>args = a, inputs = Some ins, targets = Some tgts, opt_op = None,
                 outputs = Some (map (project_note W b) outs), final_state = Some st\<rparr> \<and> g = g2" and
    train: "\<not> test a \<Longrightarrow>
            training_ops \<lparr>args = a, inputs = Some ins, targets = Some tgts, opt_op = None,
                          outputs = Some (map (project_note W b) outs), final_state = Some st\<rparr> g2
              (map (project_note W b) outs) tgts = Inr (m, g)"
  have ins': "ins = ?ins"
    using placeholder_inputs_Inr [OF ins] by (simp add: slots_def)
  have tgts': "tgts = ?tgts"
    by (rule placeholder_targets_Inr [OF tgts])
  from get_variable_weights [OF W] have W': "W = ?W" and g1: "g1 = \<lparr>variables = [?W], summaries = []\<rparr>"
    by (simp_all add: projection_weights_def)
  from b have "b = ?b \<and> g2 = ?g"
    unfolding g1 projection_weights_def projection_bias_def
    by (rule get_variable_bias)
  then have b': "b = ?b" and g2: "g2 = ?g" by simp_all
  have c': "c = stacked_cell a"
    by (rule multi_rnn_cell_Inr [OF c])
  have "rnn_decoder ?ins (ZeroState (stacked_cell a) (batch_size a)) (call_cell (stacked_cell a))
          (Some (loop_rnn ?self2 ?W ?b)) = Inr (recurrent_outputs nb a, recurrent_state nb a)"
    by (rule rnn_decoder_built) simp_all
  with dec have outs: "outs = recurrent_outputs nb a" and st: "st = recurrent_state nb a"
    unfolding ins' tgts' W' b' c' zero_state_def by simp_all
  have proj: "map (project_note ?W ?b) outs = projected_outputs nb a"
    by (simp add: outs projected_outputs_def)
  show ?thesis
  proof (cases "test a")
    case True
    from gen [OF True] show ?thesis
      unfolding ins' tgts' W' b' g2 st proj
      by (simp add: built_model_def built_graph_def True)
  next
    case False
    from train [OF False] have "training_ops ?self4 ?g (projected_outputs nb a) ?tgts = Inr (m, g)"
      unfolding ins' tgts' W' b' g2 st proj .
    from training_ops_Inr [OF this] False show ?thesis
      by (simp add: built_model_def built_graph_def)
  qed
qed

lemma placeholder_inputs_constructible:
  assumes "constructible nb a"
  shows "placeholder_inputs nb a = Inr (map (input_slot nb a) [0 ..< slots a])"
proof (cases "0 \<le> batch_size a")
  case True
  with assms show ?thesis
    using placeholder_inputs_ok [of a nb] by (simp add: constructible_def slots_def)
next
  case False
  with assms have "sample_length a \<le> 0"
    by (simp add: constructible_def)
  then show ?thesis
    by (simp add: placeholder_inputs_def py_range_def slots_def)
qed

lemma placeholder_targets_constructible:
  assumes "constructible nb a"
  shows "placeholder_targets nb a = Inr (map (target_slot nb a) [0 ..< slots a])"
proof (cases "0 \<le> batch_size a")
  case True
  have "comprehension
          (\<lambda>k. placeholder ''placeholder_targets'' ''target'' k Float32 [batch_size a, nb])
          [0 ..< nat (sample_length a)] =
        Inr (map (target_slot nb a) [0 ..< nat (sample_length a)])"
    by (rule comprehension_map)
      (use True assms in \<open>simp add: placeholder_def as_shape_def target_slot_def constructible_def\<close>)
  then show ?thesis
    by (simp add: placeholder_targets_def py_range_def slots_def)
next
  case False
  with assms have "sample_length a \<le> 0"
    by (simp add: constructible_def)
  then show ?thesis
    by (simp add: placeholder_targets_def py_range_def slots_def)
qed

lemma Model_constructs:
  assumes "constructible nb a"
  shows "Model nb a = Inr (built_model nb a, built_graph nb a)"
proof -
  let ?ins = "map (input_slot nb a) [0 ..< slots a]"
  let ?tgts = "map (target_slot nb a) [0 ..< slots a]"
  let ?W = "projection_weights nb a"
  let ?b = "projection_bias nb"
  let ?g = "\<lparr>variables = [?W, ?b], summaries = []\<rparr>"
  let ?self2 = "\<lparr>args = a, inputs = Some ?ins, targets = Some ?tgts, opt_op = None,
                 outputs = None, final_state = None\<rparr>"
  let ?self4 = "\<lparr>args = a, inputs = Some ?ins, targets = Some ?tgts, opt_op = None,
                 outputs = Some (projected_outputs nb a), final_state = Some (recurrent_state nb a)\<rparr>"
  from assms have nb: "0 \<le> nb" and hidden: "0 \<le> hidden_size a" and layers: "0 < num_layers a"
    and mode: "test a \<or> 0 < sample_length a"
    by (simp_all add: constructible_def)
  have ins: "placeholder_inputs nb a = Inr ?ins"
    by (rule placeholder_inputs_constructible [OF assms])
  have tgts: "placeholder_targets nb a = Inr ?tgts"
    by (rule placeholder_targets_constructible [OF assms])
  have W: "get_variable empty_graph ''note_projection'' ''weights'' [hidden_size a, nb]
             TruncatedNormalInitializer = Inr (?W, \<lparr>variables = [?W], summaries = []\<rparr>)"
    using nb hidden
    by (simp add: get_variable_def as_shape_def empty_graph_def projection_weights_def)
  have b: "get_variable \<lparr>variables = [?W], summaries = []\<rparr> ''note_projection'' ''bias'' [nb]
             TruncatedNormalInitializer = Inr (?b, ?g)"
    using nb
    by (simp add: get_variable_def as_shape_def projection_weights_def projection_bias_def)
  have c: "multi_rnn_cell (replicate (nat (num_layers a)) (BasicLSTMCell (hidden_size a))) =
           Inr (stacked_cell a)"
    using layers by (simp add: multi_rnn_cell_def stacked_cell_def)
  have dec: "rnn_decoder ?ins (zero_state (stacked_cell a) (batch_size a)) (call_cell (stacked_cell a))
               (Some (loop_rnn ?self2 ?W ?b)) = Inr (recurrent_outputs nb a, recurrent_state nb a)"
    unfolding zero_state_def by (rule rnn_decoder_built) simp_all
  have proj: "map (project_note ?W ?b) (recurrent_outputs nb a) = projected_outputs nb a"
    by (simp add: projected_outputs_def)
  show ?thesis
  proof (cases "test a")
    case True
    have "?self4 = built_model nb a" and "?g = built_graph nb a"
      by (simp_all add: built_model_def built_graph_def True)
    then show ?thesis
      unfolding Model_def build_network_def
      by (simp add: ins tgts W b c dec proj Let_def True)
  next
    case False
    with mode have pos: "0 < slots a" by (simp add: slots_def)
    have "training_ops ?self4 ?g (projected_outputs nb a) ?tgts =
          Inr (?self4\<lparr>opt_op := Some (Minimize (adam a) (loss_node nb a))\<rparr>,
               ?g\<lparr>summaries := [(''training_loss'', loss_node nb a)]\<rparr>)"
      unfolding training_ops_def weights_comprehension [OF pos]
      by (simp add: sequence_loss_nonempty [OF pos] scalar_summary_def adam_def)
    with False have "training_ops ?self4 ?g (projected_outputs nb a) ?tgts =
                     Inr (built_model nb a, built_graph nb a)"
      by (simp add: built_model_def built_graph_def)
    then show ?thesis
      unfolding Model_def build_network_def
      by (simp add: ins tgts W b c dec proj Let_def False)
  qed
qed

lemma valid_constructible: "valid_configuration nb a \<Longrightarrow> constructible nb a"
  by (simp add: valid_configuration_def constructible_def)

lemma placeholder_inputs_empty:
  "sample_length a \<le> 0 \<Longrightarrow> placeholder_inputs nb a = Inr []"
  by (simp add: placeholder_inputs_def py_range_def)

lemma placeholder_targets_empty:
  "sample_length a \<le> 0 \<Longrightarrow> placeholder_targets nb a = Inr []"
  by (simp add: placeholder_targets_def py_range_def)

lemma placeholder_inputs_negative:
  assumes "0 < sample_length a" and "batch_size a < 0 \<or> nb < 0"
  shows "placeholder_inputs nb a = Inl ValueError"
proof -
  have "0 \<in> set (py_range (sample_length a))"
    using assms(1) by (simp add: py_range_def)
  then show ?thesis
    unfolding placeholder_inputs_def
    by (rule comprehension_Inl) (use assms(2) in \<open>auto simp: placeholder_def as_shape_def\<close>)
qed

lemma Model_Inr_constructible:
  assumes "Model nb a = Inr (m, g)"
  shows "constructible nb a"
proof (rule build_network_steps [OF assms])
  fix ins tgts W g1 b g2 c outs st
  assume ins: "placeholder_inputs nb a = Inr ins"
    and W: "get_variable empty_graph ''note_projection'' ''weights'' [hidden_size a, nb]
          TruncatedNormalInitializer = Inr (W, g1)"
    and c: "multi_rnn_cell (replicate (nat (num_layers a)) (BasicLSTMCell (hidden_size a))) = Inr c"
  from W have 1: "0 \<le> nb \<and> 0 \<le> hidden_size a"
    by (auto simp: get_variable_def as_shape_def bind_r_Inr_iff split: if_splits)
  from c have 2: "0 < num_layers a"
    by (auto simp: multi_rnn_cell_def split: if_splits)
  have 3: "batch_size a < 0 \<longrightarrow> sample_length a \<le> 0"
    using ins placeholder_inputs_negative [of a nb] by (cases "0 < sample_length a") auto
  from Model_Inr [OF assms] have "test a \<or> 0 < sample_length a"
    by (auto simp: slots_def)
  with 1 2 3 show ?thesis
    by (simp add: constructible_def)
qed

lemma Model_Inr_iff:
  "Model nb a = Inr (m, g) \<longleftrightarrow>
   constructible nb a \<and> m = built_model nb a \<and> g = built_graph nb a"
  using Model_Inr [of nb a m g] Model_Inr_constructible [of nb a m g] Model_constructs [of nb a]
  by auto

lemma update_fresh: "k \<notin> fst ` set al \<Longrightarrow> AList.update k v al = al @ [(k, v)]"
  by (induction al) auto

lemma bindings_Nil [simp]: "bindings I X T Y [] = []"
  by (simp add: bindings_def)

lemma bindings_Cons [simp]:
  "bindings I X T Y (i # is) = (I i, X i) # (T i, Y i) # bindings I X T Y is"
  by (simp add: bindings_def)

lemma length_bindings: "length (bindings I X T Y is) = 2 * length is"
  by (induction "is") simp_all

lemma keys_bindings: "fst ` set (bindings I X T Y is) = I ` set is \<union> T ` set is"
  by (induction "is") auto

lemma distinct_bindings:
  assumes "inj I" and "inj T" and "\<And>i j. I i \<noteq> T j"
  shows "distinct is \<Longrightarrow> distinct (map fst (bindings I X T Y is))"
proof (induction "is")
  case Nil
  show ?case by simp
next
  case (Cons i "is")
  have neq: "T j \<noteq> I k" for j k
    using assms(3) [of k j] by auto
  have "I i \<notin> fst ` set (bindings I X T Y is)" "T i \<notin> fst ` set (bindings I X T Y is)"
    using Cons.prems assms neq by (auto simp: keys_bindings dest: injD)
  with Cons assms(3) show ?case
    by (simp add: image_iff)
qed

lemma map_of_bindings:
  assumes "inj I" and "inj T" and "\<And>i j. I i \<noteq> T j"
  shows "i \<in> set is \<Longrightarrow>
         map_of (bindings I X T Y is) (I i) = Some (X i) \<and>
         map_of (bindings I X T Y is) (T i) = Some (Y i)"
proof (induction "is")
  case Nil
  then show ?case by simp
next
  case (Cons j "is")
  have neq: "T k \<noteq> I l" for k l
    using assms(3) [of l k] by auto
  show ?case
  proof (cases "i = j")
    case True
    with assms(3) [of j j] show ?thesis by auto
  next
    case False
    with Cons have "map_of (bindings I X T Y is) (I i) = Some (X i) \<and>
         map_of (bindings I X T Y is) (T i) = Some (Y i)" by simp
    with False assms neq show ?thesis
      by (auto dest: injD)
  qed
qed

lemma feed_placeholders_bindings:
  assumes bi: "\<And>i. i \<in> set is \<Longrightarrow> subscript (batch_inputs batch) i = Inr (X i)"
    and si: "\<And>i. i \<in> set is \<Longrightarrow> subscript_field (inputs self) i = Inr (I i)"
    and tgs: "getattr_targets batch = Inr ys"
    and bt: "\<And>i. i \<in> set is \<Longrightarrow> subscript ys i = Inr (Y i)"
    and st: "\<And>i. i \<in> set is \<Longrightarrow> subscript_field (targets self) i = Inr (T i)"
    and inj: "inj I" "inj T" "\<And>i j. I i \<noteq> T j"
  shows "distinct is \<Longrightarrow> (I ` set is \<union> T ` set is) \<inter> fst ` set fd = {} \<Longrightarrow>
         feed_placeholders self batch is fd = Inr (fd @ bindings I X T Y is)"
  using bi si bt st
proof (induction "is" arbitrary: fd)
  case Nil
  show ?case by simp
next
  case (Cons i "is")
  let ?fd1 = "fd @ [(I i, X i)]"
  let ?fd2 = "?fd1 @ [(T i, Y i)]"
  have neq: "T k \<noteq> I l" for k l
    using inj(3) [of l k] by auto
  from Cons.prems(2) have fresh: "I i \<notin> fst ` set fd" "T i \<notin> fst ` set fd"
    by auto
  have u1: "AList.update (I i) (X i) fd = ?fd1"
    by (rule update_fresh [OF fresh(1)])
  have "T i \<notin> fst ` set ?fd1"
    using fresh(2) inj(3) [of i i] by auto
  then have u2: "AList.update (T i) (Y i) ?fd1 = ?fd2"
    by (rule update_fresh)
  have disj: "(I ` set is \<union> T ` set is) \<inter> fst ` set ?fd2 = {}"
    using Cons.prems(1,2) inj neq by (auto dest: injD)
  have "feed_placeholders self batch is ?fd2 = Inr (?fd2 @ bindings I X T Y is)"
    using Cons.prems by (intro Cons.IH disj) simp_all
  then show ?case
    by (simp add: Cons.prems(3-6) tgs u1 u2)
qed

lemma inj_input_slot: "inj (input_slot nb a)"
  by (rule injI) (simp add: input_slot_def)

lemma inj_target_slot: "inj (target_slot nb a)"
  by (rule injI) (simp add: target_slot_def)

lemma input_slot_neq_target_slot: "input_slot nb a i \<noteq> target_slot nb a j"
  by (simp add: input_slot_def target_slot_def)

lemma step_training:
  assumes "\<not> test a" and len: "slots a \<le> length (batch_inputs batch)"
    and tg: "batch_targets batch = Some ys" and len': "slots a \<le> length ys"
  shows "fst (step (built_model nb a, g) batch) =
         Inr ([OpHandle (Some (Minimize (adam a) (loss_node nb a)))],
              bindings (input_slot nb a) (\<lambda>i. batch_inputs batch ! i)
                       (target_slot nb a) (\<lambda>i. ys ! i) [0 ..< slots a])"
proof -
  have "feed_placeholders (built_model nb a) batch [0 ..< slots a] [] =
        Inr ([] @ bindings (input_slot nb a) (\<lambda>i. batch_inputs batch ! i)
                       (target_slot nb a) (\<lambda>i. ys ! i) [0 ..< slots a])"
    by (rule feed_placeholders_bindings [where ys = ys])
      (use len len' tg in \<open>simp_all add: subscript_def subscript_field_def built_model_def
         getattr_targets_def inj_input_slot inj_target_slot input_slot_neq_target_slot\<close>)
  then show ?thesis
    using assms(1) by (simp add: step_def built_model_def py_range_def slots_def)
qed

lemma step_generation:
  assumes "test a" and "0 < slots a" and "batch_inputs batch = x # xs"
  shows "fst (step (built_model nb a, g) batch) =
         Inr ([OutputsHandle (Some (projected_outputs nb a))], [(input_slot nb a 0, x)])"
  using assms
  by (simp add: step_def built_model_def subscript_def subscript_field_def upt_conv_Cons
      del: upt_Suc)

lemma step_frame: "snd (step st batch) = st"
  by (simp add: step_def Let_def)

lemma leaf_nodes_feedback:
  "is_leaf x \<Longrightarrow> x \<in> nodes (feedback W b p) \<longleftrightarrow> x \<in> nodes p \<union> nodes W \<union> nodes b"
  by (auto simp: feedback_def project_note_def)

lemma leaf_nodes_project:
  "is_leaf x \<Longrightarrow> x \<in> nodes (project_note W b p) \<longleftrightarrow> x \<in> nodes p \<union> nodes W \<union> nodes b"
  by (auto simp: project_note_def)

lemma leaf_nodes_generated:
  "y \<in> set (generated c W b inp state n) \<Longrightarrow> x \<in> nodes y \<Longrightarrow> is_leaf x \<Longrightarrow>
   x \<in> nodes inp \<union> nodes state \<union> nodes W \<union> nodes b"
proof (induction n arbitrary: inp state)
  case 0
  then show ?case by simp
next
  case (Suc n)
  from Suc.prems(1) consider "y = CellOutput c inp state"
    | "y \<in> set (generated c W b (feedback W b (CellOutput c inp state)) (CellState c inp state) n)"
    by auto
  then show ?case
  proof cases
    case 1
    with Suc.prems(2,3) show ?thesis by auto
  next
    case 2
    from Suc.IH [OF 2 Suc.prems(2,3)] Suc.prems(3) show ?thesis
      by (auto simp: leaf_nodes_feedback)
  qed
qed

lemma leaf_nodes_generated_state:
  "x \<in> nodes (generated_state c W b inp state n) \<Longrightarrow> is_leaf x \<Longrightarrow>
   x \<in> nodes inp \<union> nodes state \<union> nodes W \<union> nodes b"
proof (induction n arbitrary: inp state)
  case 0
  then show ?case by simp
next
  case (Suc n)
  from Suc.IH [of "feedback W b (CellOutput c inp state)" "CellState c inp state"] Suc.prems
  show ?case
    by (auto simp: leaf_nodes_feedback)
qed

lemma leaf_nodes_forced:
  "y \<in> set (forced c xs state) \<Longrightarrow> x \<in> nodes y \<Longrightarrow> is_leaf x \<Longrightarrow>
   x \<in> (\<Union>i \<in> set xs. nodes i) \<union> nodes state"
proof (induction xs arbitrary: state)
  case Nil
  then show ?case by simp
next
  case (Cons i xs)
  from Cons.prems(1) consider "y = CellOutput c i state"
    | "y \<in> set (forced c xs (CellState c i state))"
    by auto
  then show ?case
  proof cases
    case 1
    with Cons.prems(2,3) show ?thesis by auto
  next
    case 2
    from Cons.IH [OF 2 Cons.prems(2,3)] Cons.prems(3) show ?thesis
      by auto
  qed
qed

lemma rnn_output_built:
  "t < slots a \<Longrightarrow> rnn_output (built_model nb a) t = Some (recurrent_outputs nb a ! t)"
  by (simp add: rnn_output_def built_model_def projected_outputs_def project_note_def)

lemma recurrent_outputs_gen_0:
  "test a \<Longrightarrow> 0 < slots a \<Longrightarrow>
   recurrent_outputs nb a ! 0 =
   CellOutput (stacked_cell a) (input_slot nb a 0) (ZeroState (stacked_cell a) (batch_size a))"
  by (simp add: recurrent_outputs_def generated_0)

lemma recurrent_outputs_gen_Suc:
  "test a \<Longrightarrow> Suc t < slots a \<Longrightarrow>
   \<exists>s. recurrent_outputs nb a ! Suc t =
        CellOutput (stacked_cell a)
          (feedback (projection_weights nb a) (projection_bias nb) (recurrent_outputs nb a ! t)) s"
  by (simp add: recurrent_outputs_def generated_Suc)

lemma recurrent_outputs_train:
  "\<not> test a \<Longrightarrow> t < slots a \<Longrightarrow>
   \<exists>s. recurrent_outputs nb a ! t = CellOutput (stacked_cell a) (input_slot nb a t) s"
  by (simp add: recurrent_outputs_def forced_nth)

lemma leaf_nodes_recurrent_outputs_gen:
  assumes "test a" and "t < slots a" and "x \<in> nodes (recurrent_outputs nb a ! t)" and "is_leaf x"
  shows "x \<in> {input_slot nb a 0, projection_weights nb a, projection_bias nb}"
proof -
  have "recurrent_outputs nb a ! t \<in> set (recurrent_outputs nb a)"
    using assms(2) by simp
  then have "recurrent_outputs nb a ! t \<in>
             set (generated (stacked_cell a) (projection_weights nb a) (projection_bias nb)
                    (input_slot nb a 0) (ZeroState (stacked_cell a) (batch_size a)) (slots a))"
    using assms(1) by (simp add: recurrent_outputs_def)
  from leaf_nodes_generated [OF this assms(3,4)] assms(4) show ?thesis
    by (auto simp: input_slot_def projection_weights_def projection_bias_def)
qed

lemma leaf_nodes_recurrent_state_gen:
  assumes "test a" and "x \<in> nodes (recurrent_state nb a)" and "is_leaf x"
  shows "x \<in> {input_slot nb a 0, projection_weights nb a, projection_bias nb}"
proof -
  from assms(1,2) have "x \<in> nodes (generated_state (stacked_cell a) (projection_weights nb a)
      (projection_bias nb) (input_slot nb a 0) (ZeroState (stacked_cell a) (batch_size a)) (slots a))"
    by (simp add: recurrent_state_def)
  from leaf_nodes_generated_state [OF this assms(3)] assms(3) show ?thesis
    by (auto simp: input_slot_def projection_weights_def projection_bias_def)
qed

lemma leaf_nodes_recurrent_outputs_train:
  assumes "\<not> test a" and "t < slots a" and "x \<in> nodes (recurrent_outputs nb a ! t)" and "is_leaf x"
  shows "\<exists>k < slots a. x = input_slot nb a k"
proof -
  have "recurrent_outputs nb a ! t \<in> set (recurrent_outputs nb a)"
    using assms(2) by simp
  then have "recurrent_outputs nb a ! t \<in>
             set (forced (stacked_cell a) (map (input_slot nb a) [0 ..< slots a])
                    (ZeroState (stacked_cell a) (batch_size a)))"
    using assms(1) by (simp add: recurrent_outputs_def)
  from leaf_nodes_forced [OF this assms(3,4)] assms(4) show ?thesis
    by (auto simp: input_slot_def)
qed

lemma variables_of_output:
  assumes "t < slots a"
  shows "{v \<in> nodes (projected_outputs nb a ! t). is_variable v} =
         {projection_weights nb a, projection_bias nb}"
proof -
  let ?W = "projection_weights nb a" and ?b = "projection_bias nb"
  have out: "projected_outputs nb a ! t = project_note ?W ?b (recurrent_outputs nb a ! t)"
    using assms by (simp add: projected_outputs_def)
  have leaf: "is_leaf v" if "is_variable v" for v
    using that by (cases v) simp_all
  have "v \<in> {?W, ?b}" if v: "v \<in> nodes (projected_outputs nb a ! t)" "is_variable v" for v
  proof -
    from v leaf have "v \<in> nodes (recurrent_outputs nb a ! t) \<union> nodes ?W \<union> nodes ?b"
      by (simp add: out leaf_nodes_project)
    then consider "v \<in> nodes (recurrent_outputs nb a ! t)" | "v \<in> {?W, ?b}"
      by (auto simp: projection_weights_def projection_bias_def)
    then show ?thesis
    proof cases
      case 1
      show ?thesis
      proof (cases "test a")
        case True
        from leaf_nodes_recurrent_outputs_gen [OF True assms 1 leaf [OF v(2)]] v(2)
        show ?thesis by (auto simp: input_slot_def)
      next
        case False
        from leaf_nodes_recurrent_outputs_train [OF False assms 1 leaf [OF v(2)]] v(2)
        show ?thesis by (auto simp: input_slot_def)
      qed
    next
      case 2
      then show ?thesis .
    qed
  qed
  moreover have "?W \<in> nodes (projected_outputs nb a ! t)" "?b \<in> nodes (projected_outputs nb a ! t)"
    by (simp_all add: out project_note_def projection_weights_def projection_bias_def)
  moreover have "is_variable ?W" "is_variable ?b"
    by (simp_all add: projection_weights_def projection_bias_def)
  ultimately show ?thesis by blast
qed

lemma scenario_generation_constructs:
  "Model 88 scenario_generation =
   Inr (built_model 88 scenario_generation, built_graph 88 scenario_generation)"
  by (rule Model_constructs) (simp add: constructible_def scenario_generation_def)

lemma scenario_training_constructs:
  "Model 88 scenario_training =
   Inr (built_model 88 scenario_training, built_graph 88 scenario_training)"
  by (rule Model_constructs) (simp add: constructible_def scenario_training_def)

lemma input_slot_nodes:
  "0 < k \<Longrightarrow> input_slot nb a k \<notin> {input_slot nb a 0, projection_weights nb a, projection_bias nb}"
  by (simp add: input_slot_def projection_weights_def projection_bias_def)

lemma is_leaf_input_slot [simp]: "is_leaf (input_slot nb a k)"
  by (simp add: input_slot_def)

lemma get_shape_input_slot [simp]: "get_shape (input_slot nb a k) = Some [batch_size a, nb]"
  by (simp add: input_slot_def)

lemma get_shape_target_slot [simp]: "get_shape (target_slot nb a k) = Some [batch_size a, nb]"
  by (simp add: target_slot_def)

lemma projection_of_output:
  "t < slots a \<Longrightarrow>
   projection_of (projected_outputs nb a ! t) =
   Some (recurrent_outputs nb a ! t, projection_weights nb a, projection_bias nb)"
  by (simp add: projected_outputs_def project_note_def)

lemma constructible_test: "constructible nb a \<Longrightarrow> constructible nb (a\<lparr>test := True\<rparr>)"
  by (simp add: constructible_def)

lemma loss_steps_built:
  assumes "\<not> test a"
  shows "loss_steps (built_model nb a) =
         map (\<lambda>t. Some (projected_outputs nb a ! t, target_slot nb a t, Ones [batch_size a, nb]))
           [0 ..< slots a]"
  using assms by (simp add: loss_steps_def built_model_def loss_node_def comp_def)

section \<open>The claims\<close>

text \<open>
  Claim C1. In a model constructed in generation mode, the input fed to the recurrent
  stack at time step 0 is the input slot 0. At every time step \<open>t > 0\<close> it
  is \<open>2 * sigmoid(project_note(prev)) - 1\<close>, where \<open>prev\<close> is
  the raw recurrent output of step \<open>t - 1\<close> and the projection is the shared
  one; every entry of this node lies in \<open>[-1, 1]\<close> (over the reals). No
  input slot other than slot 0 is among the nodes that an output or the final state is
  computed from.
\<close>

theorem generation_feeds_back_own_output:
  assumes "Model nb a = Inr (m, g)" and "test a" and "t < nat (sample_length a)"
  shows "\<exists>ins outs fs W b.
           inputs m = Some ins \<and> outputs m = Some outs \<and> final_state m = Some fs \<and>
           variables g = [W, b] \<and>
           length ins = nat (sample_length a) \<and> length outs = nat (sample_length a) \<and>
           (t = 0 \<longrightarrow> rnn_input m t = Some (ins ! 0)) \<and>
           (0 < t \<longrightarrow>
              (\<exists>prev. rnn_output m (t - 1) = Some prev \<and>
                 rnn_input m t =
                   Some (Sub (Mul (Const 2) (Sigmoid (project_note W b prev))) (Const 1)) \<and>
                 (\<forall>\<rho>. - 1 \<le> entry_value \<rho>
                              (Sub (Mul (Const 2) (Sigmoid (project_note W b prev))) (Const 1)) \<and>
                      entry_value \<rho>
                        (Sub (Mul (Const 2) (Sigmoid (project_note W b prev))) (Const 1)) \<le> 1))) \<and>
           (\<forall>k. 0 < k \<and> k < length ins \<longrightarrow> ins ! k \<notin> nodes (outs ! t) \<and> ins ! k \<notin> nodes fs)"
proof -
  let ?W = "projection_weights nb a" and ?b = "projection_bias nb"
  let ?ins = "map (input_slot nb a) [0 ..< slots a]"
  from Model_Inr [OF assms(1)] have m: "m = built_model nb a" and g: "g = built_graph nb a"
    by simp_all
  from assms(3) have t: "t < slots a"
    by (simp add: slots_def)
  have first: "rnn_input m t = Some (?ins ! 0)" if "t = 0"
    using that t assms(2)
    by (simp add: rnn_input_def m rnn_output_built recurrent_outputs_gen_0)
  have later: "\<exists>prev. rnn_output m (t - 1) = Some prev \<and>
                 rnn_input m t =
                   Some (Sub (Mul (Const 2) (Sigmoid (project_note ?W ?b prev))) (Const 1)) \<and>
                 (\<forall>\<rho>. - 1 \<le> entry_value \<rho>
                              (Sub (Mul (Const 2) (Sigmoid (project_note ?W ?b prev))) (Const 1)) \<and>
                      entry_value \<rho>
                        (Sub (Mul (Const 2) (Sigmoid (project_note ?W ?b prev))) (Const 1)) \<le> 1)"
    if "0 < t"
  proof -
    from that obtain t' where t': "t = Suc t'"
      by (cases t) simp_all
    with t have "t' < slots a" by simp
    then have prev: "rnn_output m (t - 1) = Some (recurrent_outputs nb a ! t')"
      by (simp add: m t' rnn_output_built)
    from recurrent_outputs_gen_Suc [OF assms(2) t [unfolded t']]
    obtain s where "recurrent_outputs nb a ! t =
        CellOutput (stacked_cell a) (feedback ?W ?b (recurrent_outputs nb a ! t')) s"
      unfolding t' by blast
    then have "rnn_input m t =
        Some (Sub (Mul (Const 2) (Sigmoid (project_note ?W ?b (recurrent_outputs nb a ! t')))) (Const 1))"
      using t by (simp add: rnn_input_def m rnn_output_built feedback_def)
    with prev scaled_sigmoid_bounds show ?thesis
      by blast
  qed
  have unused: "?ins ! k \<notin> nodes (projected_outputs nb a ! t) \<and> ?ins ! k \<notin> nodes (recurrent_state nb a)"
    if k: "0 < k" "k < length ?ins" for k
  proof -
    have slot: "?ins ! k = input_slot nb a k"
      using k by simp
    have "input_slot nb a k \<notin> nodes (projected_outputs nb a ! t)"
    proof
      assume "input_slot nb a k \<in> nodes (projected_outputs nb a ! t)"
      then have "input_slot nb a k \<in> nodes (project_note ?W ?b (recurrent_outputs nb a ! t))"
        using t by (simp add: projected_outputs_def)
      then have "input_slot nb a k \<in> nodes (recurrent_outputs nb a ! t) \<union> nodes ?W \<union> nodes ?b"
        by (simp add: leaf_nodes_project)
      then have "input_slot nb a k \<in> nodes (recurrent_outputs nb a ! t)"
        by (auto simp: projection_weights_def projection_bias_def input_slot_def)
      then have "input_slot nb a k \<in> {input_slot nb a 0, ?W, ?b}"
        by (rule leaf_nodes_recurrent_outputs_gen [OF assms(2) t]) simp
      with input_slot_nodes [OF k(1)] show False by blast
    qed
    moreover have "input_slot nb a k \<notin> nodes (recurrent_state nb a)"
    proof
      assume "input_slot nb a k \<in> nodes (recurrent_state nb a)"
      then have "input_slot nb a k \<in> {input_slot nb a 0, ?W, ?b}"
        by (rule leaf_nodes_recurrent_state_gen [OF assms(2)]) simp
      with input_slot_nodes [OF k(1)] show False by blast
    qed
    ultimately show ?thesis
      by (simp only: slot) simp
  qed
  have "inputs m = Some ?ins" "outputs m = Some (projected_outputs nb a)"
    "final_state m = Some (recurrent_state nb a)" "variables g = [?W, ?b]"
    "length ?ins = nat (sample_length a)" "length (projected_outputs nb a) = nat (sample_length a)"
    by (simp_all add: m g built_model_def built_graph_def slots_def)
  with first later unused show ?thesis
    by blast
qed

text \<open>
  The theorem above at a scenario of the spec.
\<close>

theorem generation_feeds_back_own_output_witness:
  "Model 88 scenario_generation =
     Inr (built_model 88 scenario_generation, built_graph 88 scenario_generation) \<and>
   test scenario_generation \<and> (1::nat) < nat (sample_length scenario_generation) \<and>
   (\<exists>ins outs fs W b.
      inputs (built_model 88 scenario_generation) = Some ins \<and>
      outputs (built_model 88 scenario_generation) = Some outs \<and>
      final_state (built_model 88 scenario_generation) = Some fs \<and>
      variables (built_graph 88 scenario_generation) = [W, b] \<and>
      length ins = nat (sample_length scenario_generation) \<and>
      length outs = nat (sample_length scenario_generation) \<and>
      ((1::nat) = 0 \<longrightarrow> rnn_input (built_model 88 scenario_generation) 1 = Some (ins ! 0)) \<and>
      ((0::nat) < 1 \<longrightarrow>
         (\<exists>prev. rnn_output (built_model 88 scenario_generation) (1 - 1) = Some prev \<and>
            rnn_input (built_model 88 scenario_generation) 1 =
              Some (Sub (Mul (Const 2) (Sigmoid (project_note W b prev))) (Const 1)) \<and>
            (\<forall>\<rho>. - 1 \<le> entry_value \<rho>
                         (Sub (Mul (Const 2) (Sigmoid (project_note W b prev))) (Const 1)) \<and>
                 entry_value \<rho>
                   (Sub (Mul (Const 2) (Sigmoid (project_note W b prev))) (Const 1)) \<le> 1))) \<and>
      (\<forall>k. 0 < k \<and> k < length ins \<longrightarrow> ins ! k \<notin> nodes (outs ! 1) \<and> ins ! k \<notin> nodes fs))"
proof -
  have h1: "Model 88 scenario_generation =
              Inr (built_model 88 scenario_generation, built_graph 88 scenario_generation)"
    by (rule scenario_generation_constructs)
  have h2: "test scenario_generation"
    by (simp add: scenario_generation_def)
  have h3: "(1::nat) < nat (sample_length scenario_generation)"
    by (simp add: scenario_generation_def)
  from generation_feeds_back_own_output [OF h1 h2 h3] h1 h2 h3 show ?thesis
    by (intro conjI)
qed

text \<open>
  Claim C2. In a model constructed in training mode, the input fed to the recurrent
  stack at every time step \<open>t\<close> is the input slot \<open>t\<close>: a
  placeholder, which no cell output (no prediction of the model) enters.
\<close>

theorem training_feeds_input_slots:
  assumes "Model nb a = Inr (m, g)" and "\<not> test a" and "t < nat (sample_length a)"
  shows "\<exists>ins. inputs m = Some ins \<and> length ins = nat (sample_length a) \<and>
           rnn_input m t = Some (ins ! t) \<and>
           is_placeholder (ins ! t) \<and> (\<forall>x \<in> nodes (ins ! t). \<not> is_cell_output x)"
proof -
  let ?ins = "map (input_slot nb a) [0 ..< slots a]"
  from Model_Inr [OF assms(1)] have m: "m = built_model nb a"
    by simp
  from assms(3) have t: "t < slots a"
    by (simp add: slots_def)
  from recurrent_outputs_train [OF assms(2) t]
  obtain s where "recurrent_outputs nb a ! t = CellOutput (stacked_cell a) (input_slot nb a t) s"
    by blast
  then have "rnn_input m t = Some (?ins ! t)"
    using t by (simp add: rnn_input_def m rnn_output_built)
  moreover have "is_placeholder (?ins ! t)" "\<forall>x \<in> nodes (?ins ! t). \<not> is_cell_output x"
    using t by (simp_all add: input_slot_def)
  moreover have "inputs m = Some ?ins" "length ?ins = nat (sample_length a)"
    by (simp_all add: m built_model_def slots_def)
  ultimately show ?thesis
    by blast
qed

text \<open>
  The theorem above at a scenario of the spec.
\<close>

theorem training_feeds_input_slots_witness:
  "Model 88 scenario_training =
     Inr (built_model 88 scenario_training, built_graph 88 scenario_training) \<and>
   \<not> test scenario_training \<and> (2::nat) < nat (sample_length scenario_training) \<and>
   (\<exists>ins. inputs (built_model 88 scenario_training) = Some ins \<and>
      length ins = nat (sample_length scenario_training) \<and>
      rnn_input (built_model 88 scenario_training) 2 = Some (ins ! 2) \<and>
      is_placeholder (ins ! 2) \<and> (\<forall>x \<in> nodes (ins ! 2). \<not> is_cell_output x))"
proof -
  have h1: "Model 88 scenario_training =
              Inr (built_model 88 scenario_training, built_graph 88 scenario_training)"
    by (rule scenario_training_constructs)
  have h2: "\<not> test scenario_training"
    by (simp add: scenario_training_def)
  have h3: "(2::nat) < nat (sample_length scenario_training)"
    by (simp add: scenario_training_def)
  from training_feeds_input_slots [OF h1 h2 h3] h1 h2 h3 show ?thesis
    by (intro conjI)
qed

text \<open>
  Claim C3. For every valid configuration the construction succeeds and produces exactly
  \<open>sample_length\<close> distinct input slots and, in training mode, exactly
  \<open>sample_length\<close> distinct target slots, each of shape \<open>[batch_size,
  NB_NOTES]\<close>.
\<close>

theorem construction_allocates_slots:
  assumes "valid_configuration nb a"
  shows "\<exists>m g ins.
           Model nb a = Inr (m, g) \<and>
           inputs m = Some ins \<and> int (length ins) = sample_length a \<and> distinct ins \<and>
           (\<forall>x \<in> set ins. get_shape x = Some [batch_size a, nb]) \<and>
           (\<not> test a \<longrightarrow>
              (\<exists>tgts. targets m = Some tgts \<and> int (length tgts) = sample_length a \<and>
                 distinct tgts \<and> (\<forall>x \<in> set tgts. get_shape x = Some [batch_size a, nb])))"
proof -
  let ?ins = "map (input_slot nb a) [0 ..< slots a]"
  let ?tgts = "map (target_slot nb a) [0 ..< slots a]"
  from assms have pos: "0 < sample_length a"
    by (simp add: valid_configuration_def)
  have "Model nb a = Inr (built_model nb a, built_graph nb a)"
    by (rule Model_constructs [OF valid_constructible [OF assms]])
  moreover have "inputs (built_model nb a) = Some ?ins" "targets (built_model nb a) = Some ?tgts"
    by (simp_all add: built_model_def)
  moreover have "int (length ?ins) = sample_length a" "int (length ?tgts) = sample_length a"
    using pos by (simp_all add: slots_def)
  moreover have "distinct ?ins" "distinct ?tgts"
    by (simp_all add: distinct_map inj_input_slot inj_target_slot inj_on_def input_slot_def
        target_slot_def)
  moreover have "\<forall>x \<in> set ?ins. get_shape x = Some [batch_size a, nb]"
    "\<forall>x \<in> set ?tgts. get_shape x = Some [batch_size a, nb]"
    by auto
  ultimately show ?thesis
    by blast
qed

text \<open>
  The theorem above at a scenario of the spec.
\<close>

theorem construction_allocates_slots_witness:
  "valid_configuration 88 scenario_training \<and>
   (\<exists>m g ins.
      Model 88 scenario_training = Inr (m, g) \<and>
      inputs m = Some ins \<and> int (length ins) = sample_length scenario_training \<and> distinct ins \<and>
      (\<forall>x \<in> set ins. get_shape x = Some [batch_size scenario_training, 88]) \<and>
      (\<not> test scenario_training \<longrightarrow>
         (\<exists>tgts. targets m = Some tgts \<and> int (length tgts) = sample_length scenario_training \<and>
            distinct tgts \<and>
            (\<forall>x \<in> set tgts. get_shape x = Some [batch_size scenario_training, 88]))))"
proof -
  have h: "valid_configuration 88 scenario_training"
    by (simp add: valid_configuration_def scenario_training_def)
  from construction_allocates_slots [OF h] h show ?thesis
    by (intro conjI)
qed

text \<open>
  Claim C4. For a model constructed in training mode and a batch with
  \<open>sample_length\<close> input arrays and \<open>sample_length\<close> target
  arrays, \<open>step\<close> returns one handle, the optimizer operation of the model,
  and a feed dictionary with exactly \<open>2 * sample_length\<close> entries: its keys
  are the input and target slots, and slot \<open>i\<close> is bound to array
  \<open>i\<close> of the batch.
\<close>

theorem step_training_binds_every_slot:
  assumes "Model nb a = Inr (m, g)" and "\<not> test a"
    and "int (length (batch_inputs batch)) = sample_length a"
    and "batch_targets batch = Some ys" and "int (length ys) = sample_length a"
  shows "\<exists>ins tgts opt loss feed_dict.
           inputs m = Some ins \<and> targets m = Some tgts \<and>
           opt_op m = Some (Minimize opt loss) \<and>
           fst (step (m, g) batch) = Inr ([OpHandle (Some (Minimize opt loss))], feed_dict) \<and>
           length feed_dict = 2 * nat (sample_length a) \<and>
           distinct (map fst feed_dict) \<and>
           fst ` set feed_dict = set ins \<union> set tgts \<and>
           (\<forall>i < nat (sample_length a).
              map_of feed_dict (ins ! i) = Some (batch_inputs batch ! i) \<and>
              map_of feed_dict (tgts ! i) = Some (ys ! i))"
proof -
  let ?I = "input_slot nb a" and ?T = "target_slot nb a"
  let ?X = "\<lambda>i. batch_inputs batch ! i" and ?Y = "\<lambda>i. ys ! i"
  let ?ins = "map ?I [0 ..< slots a]" and ?tgts = "map ?T [0 ..< slots a]"
  let ?fd = "bindings ?I ?X ?T ?Y [0 ..< slots a]"
  from Model_Inr [OF assms(1)] have m: "m = built_model nb a"
    by simp
  from assms(3,5) have len: "slots a \<le> length (batch_inputs batch)" "slots a \<le> length ys"
    by (simp_all add: slots_def)
  have res: "fst (step (m, g) batch) =
             Inr ([OpHandle (Some (Minimize (adam a) (loss_node nb a)))], ?fd)"
    unfolding m by (rule step_training [OF assms(2) len(1) assms(4) len(2)])
  have fields: "inputs m = Some ?ins" "targets m = Some ?tgts"
    "opt_op m = Some (Minimize (adam a) (loss_node nb a))"
    using assms(2) by (simp_all add: m built_model_def)
  have size: "length ?fd = 2 * nat (sample_length a)"
    by (simp add: length_bindings slots_def)
  have dist: "distinct (map fst ?fd)"
    by (rule distinct_bindings)
      (simp_all add: inj_input_slot inj_target_slot input_slot_neq_target_slot)
  have keys: "fst ` set ?fd = set ?ins \<union> set ?tgts"
    by (simp add: keys_bindings)
  have vals: "\<forall>i < nat (sample_length a).
                map_of ?fd (?ins ! i) = Some (?X i) \<and> map_of ?fd (?tgts ! i) = Some (?Y i)"
  proof (intro allI impI)
    fix i assume "i < nat (sample_length a)"
    then have i: "i \<in> set [0 ..< slots a]"
      by (simp add: slots_def)
    have "map_of ?fd (?I i) = Some (?X i) \<and> map_of ?fd (?T i) = Some (?Y i)"
      by (rule map_of_bindings [OF inj_input_slot inj_target_slot input_slot_neq_target_slot i])
    with i show "map_of ?fd (?ins ! i) = Some (?X i) \<and> map_of ?fd (?tgts ! i) = Some (?Y i)"
      by simp
  qed
  from fields res size dist keys vals show ?thesis
    by blast
qed

text \<open>
  The theorem above at a scenario of the spec.
\<close>

theorem step_training_binds_every_slot_witness:
  "Model 88 scenario_training =
     Inr (built_model 88 scenario_training, built_graph 88 scenario_training) \<and>
   \<not> test scenario_training \<and>
   int (length (batch_inputs scenario_batch)) = sample_length scenario_training \<and>
   batch_targets scenario_batch = Some [20, 21, 22, 23] \<and>
   int (length [20, 21, 22, 23 :: nat]) = sample_length scenario_training \<and>
   (\<exists>ins tgts opt loss feed_dict.
      inputs (built_model 88 scenario_training) = Some ins \<and>
      targets (built_model 88 scenario_training) = Some tgts \<and>
      opt_op (built_model 88 scenario_training) = Some (Minimize opt loss) \<and>
      fst (step (built_model 88 scenario_training, built_graph 88 scenario_training) scenario_batch) =
        Inr ([OpHandle (Some (Minimize opt loss))], feed_dict) \<and>
      length feed_dict = 2 * nat (sample_length scenario_training) \<and>
      distinct (map fst feed_dict) \<and>
      fst ` set feed_dict = set ins \<union> set tgts \<and>
      (\<forall>i < nat (sample_length scenario_training).
         map_of feed_dict (ins ! i) = Some (batch_inputs scenario_batch ! i) \<and>
         map_of feed_dict (tgts ! i) = Some ([20, 21, 22, 23] ! i)))"
proof -
  have h1: "Model 88 scenario_training =
              Inr (built_model 88 scenario_training, built_graph 88 scenario_training)"
    by (rule scenario_training_constructs)
  have h2: "\<not> test scenario_training"
    by (simp add: scenario_training_def)
  have h3: "int (length (batch_inputs scenario_batch)) = sample_length scenario_training"
    by (simp add: scenario_training_def scenario_batch_def)
  have h4: "batch_targets scenario_batch = Some [20, 21, 22, 23]"
    by (simp add: scenario_batch_def)
  have h5: "int (length [20, 21, 22, 23 :: nat]) = sample_length scenario_training"
    by (simp add: scenario_training_def)
  from step_training_binds_every_slot [OF h1 h2 h3 h4 h5] h1 h2 h3 h4 h5 show ?thesis
    by (intro conjI)
qed

text \<open>
  Claim C5. For a model constructed in generation mode with at least one time step and a
  batch whose first input array is present, \<open>step\<close> raises nothing and
  returns one handle, the whole output sequence of length \<open>sample_length\<close>,
  and a feed dictionary with exactly one entry, which binds the first input slot to the
  first input array.
\<close>

theorem step_generation_binds_first_slot:
  assumes "Model nb a = Inr (m, g)" and "test a" and "0 < sample_length a"
    and "batch_inputs batch \<noteq> []"
  shows "\<exists>ins outs.
           inputs m = Some ins \<and> outputs m = Some outs \<and>
           int (length outs) = sample_length a \<and>
           fst (step (m, g) batch) =
             Inr ([OutputsHandle (Some outs)], [(ins ! 0, batch_inputs batch ! 0)])"
proof -
  let ?ins = "map (input_slot nb a) [0 ..< slots a]"
  from Model_Inr [OF assms(1)] have m: "m = built_model nb a"
    by simp
  from assms(3) have pos: "0 < slots a"
    by (simp add: slots_def)
  from assms(4) obtain x xs where b: "batch_inputs batch = x # xs"
    by (cases "batch_inputs batch") simp_all
  have "fst (step (m, g) batch) =
        Inr ([OutputsHandle (Some (projected_outputs nb a))], [(input_slot nb a 0, x)])"
    unfolding m by (rule step_generation [OF assms(2) pos b])
  moreover have "?ins ! 0 = input_slot nb a 0" "batch_inputs batch ! 0 = x"
    using pos b by simp_all
  moreover have "inputs m = Some ?ins" "outputs m = Some (projected_outputs nb a)"
    "int (length (projected_outputs nb a)) = sample_length a"
    using assms(3) by (simp_all add: m built_model_def slots_def)
  ultimately show ?thesis
    by (metis (no_types, lifting))
qed

text \<open>
  The theorem above at a scenario of the spec.
\<close>

theorem step_generation_binds_first_slot_witness:
  "Model 88 scenario_generation =
     Inr (built_model 88 scenario_generation, built_graph 88 scenario_generation) \<and>
   test scenario_generation \<and> 0 < sample_length scenario_generation \<and>
   batch_inputs \<lparr>batch_inputs = [0::nat], batch_targets = None\<rparr> \<noteq> [] \<and>
   (\<exists>ins outs.
      inputs (built_model 88 scenario_generation) = Some ins \<and>
      outputs (built_model 88 scenario_generation) = Some outs \<and>
      int (length outs) = sample_length scenario_generation \<and>
      fst (step (built_model 88 scenario_generation, built_graph 88 scenario_generation)
             \<lparr>batch_inputs = [0::nat], batch_targets = None\<rparr>) =
        Inr ([OutputsHandle (Some outs)],
             [(ins ! 0, batch_inputs \<lparr>batch_inputs = [0::nat], batch_targets = None\<rparr> ! 0)]))"
proof -
  have h1: "Model 88 scenario_generation =
              Inr (built_model 88 scenario_generation, built_graph 88 scenario_generation)"
    by (rule scenario_generation_constructs)
  have h2: "test scenario_generation"
    by (simp add: scenario_generation_def)
  have h3: "0 < sample_length scenario_generation"
    by (simp add: scenario_generation_def)
  have h4: "batch_inputs \<lparr>batch_inputs = [0::nat], batch_targets = None\<rparr> \<noteq> []"
    by simp
  from step_generation_binds_first_slot [OF h1 h2 h3 h4] h1 h2 h3 h4 show ?thesis
    by (intro conjI)
qed

text \<open>
  Claim C9. \<open>step\<close> hands back the model and the graph it received,
  unchanged, whether it returns handles and bindings or raises.
\<close>

theorem step_leaves_model_and_graph:
  "snd (step (m, g) batch) = (m, g)"
  by (rule step_frame)

text \<open>
  The theorem above at a scenario of the spec.
\<close>

theorem step_leaves_model_and_graph_witness:
  "snd (step (built_model 88 scenario_training, built_graph 88 scenario_training) scenario_batch) =
   (built_model 88 scenario_training, built_graph 88 scenario_training)"
  by (rule step_leaves_model_and_graph)

text \<open>
  Claim C10. In generation mode \<open>step\<close> succeeds on a batch that has a first
  input array and no targets attribute, and its result depends on nothing in the batch
  but the first input array: any other batch with the same first input array, with or
  without targets, gives the same result.
\<close>

theorem step_generation_ignores_targets:
  assumes "Model nb a = Inr (m, g)" and "test a" and "0 < sample_length a"
  shows "(\<exists>r. fst (step (m, g) \<lparr>batch_inputs = x # xs, batch_targets = None\<rparr>) = Inr r) \<and>
         (\<forall>xs' tg. step (m, g) \<lparr>batch_inputs = x # xs', batch_targets = tg\<rparr> =
                    step (m, g) \<lparr>batch_inputs = x # xs, batch_targets = None\<rparr>)"
proof -
  from Model_Inr [OF assms(1)] have m: "m = built_model nb a"
    by simp
  from assms(3) have pos: "0 < slots a"
    by (simp add: slots_def)
  have res: "fst (step (m, g) \<lparr>batch_inputs = x # ws, batch_targets = tg\<rparr>) =
        Inr ([OutputsHandle (Some (projected_outputs nb a))], [(input_slot nb a 0, x)])"
    for ws and tg :: "'a list option"
    unfolding m by (rule step_generation [OF assms(2) pos]) simp
  have "step (m, g) \<lparr>batch_inputs = x # ws, batch_targets = tg\<rparr> =
        (Inr ([OutputsHandle (Some (projected_outputs nb a))], [(input_slot nb a 0, x)]), (m, g))"
    for ws and tg :: "'a list option"
    using res [of ws tg] step_frame [of "(m, g)" "\<lparr>batch_inputs = x # ws, batch_targets = tg\<rparr>"]
    by (simp add: prod_eq_iff)
  then show ?thesis
    by simp
qed

text \<open>
  The theorem above at a scenario of the spec.
\<close>

theorem step_generation_ignores_targets_witness:
  "Model 88 scenario_generation =
     Inr (built_model 88 scenario_generation, built_graph 88 scenario_generation) \<and>
   test scenario_generation \<and> 0 < sample_length scenario_generation \<and>
   (\<exists>r. fst (step (built_model 88 scenario_generation, built_graph 88 scenario_generation)
              \<lparr>batch_inputs = (0::nat) # [], batch_targets = None\<rparr>) = Inr r) \<and>
   (\<forall>xs' tg. step (built_model 88 scenario_generation, built_graph 88 scenario_generation)
                \<lparr>batch_inputs = (0::nat) # xs', batch_targets = tg\<rparr> =
              step (built_model 88 scenario_generation, built_graph 88 scenario_generation)
                \<lparr>batch_inputs = (0::nat) # [], batch_targets = None\<rparr>)"
proof -
  have h1: "Model 88 scenario_generation =
              Inr (built_model 88 scenario_generation, built_graph 88 scenario_generation)"
    by (rule scenario_generation_constructs)
  have h2: "test scenario_generation"
    by (simp add: scenario_generation_def)
  have h3: "0 < sample_length scenario_generation"
    by (simp add: scenario_generation_def)
  from step_generation_ignores_targets [OF h1 h2 h3, of "0::nat" "[]"] h1 h2 h3 show ?thesis
    by (intro conjI) simp_all
qed

text \<open>
  Claim C6. In every constructed model the graph holds exactly two projection variables,
  the weights and the bias of the scope \<^verbatim>\<open>note_projection\<close>. The
  output of every time step is a projection with these two parameters, the same as at
  step 0; in generation mode the input fed back at every step \<open>t > 0\<close> is
  computed with the same two parameters; and they are the only variables among the nodes
  of any output.
\<close>

theorem projection_is_shared:
  assumes "Model nb a = Inr (m, g)" and "t < nat (sample_length a)"
  shows "\<exists>W b outs.
           W = Variable ''note_projection'' ''weights'' [hidden_size a, nb] TruncatedNormalInitializer \<and>
           b = Variable ''note_projection'' ''bias'' [nb] TruncatedNormalInitializer \<and>
           variables g = [W, b] \<and> outputs m = Some outs \<and>
           (\<exists>X. projection_of (outs ! t) = Some (X, W, b)) \<and>
           map_option snd (projection_of (outs ! t)) = map_option snd (projection_of (outs ! 0)) \<and>
           (test a \<and> 0 < t \<longrightarrow>
              (\<exists>prev. rnn_input m t =
                 Some (Sub (Mul (Const 2) (Sigmoid (Add (MatMul prev W) b))) (Const 1)))) \<and>
           {v \<in> nodes (outs ! t). is_variable v} = {W, b}"
proof -
  let ?W = "projection_weights nb a" and ?b = "projection_bias nb"
  from Model_Inr [OF assms(1)] have m: "m = built_model nb a" and g: "g = built_graph nb a"
    by simp_all
  from assms(2) have t: "t < slots a" and pos: "0 < slots a"
    by (simp_all add: slots_def)
  have W: "?W = Variable ''note_projection'' ''weights'' [hidden_size a, nb] TruncatedNormalInitializer"
    and b: "?b = Variable ''note_projection'' ''bias'' [nb] TruncatedNormalInitializer"
    by (simp_all add: projection_weights_def projection_bias_def)
  have fields: "variables g = [?W, ?b]" "outputs m = Some (projected_outputs nb a)"
    by (simp_all add: m g built_model_def built_graph_def)
  have proj: "\<exists>X. projection_of (projected_outputs nb a ! t) = Some (X, ?W, ?b)"
    by (simp add: projection_of_output [OF t])
  have same: "map_option snd (projection_of (projected_outputs nb a ! t)) =
              map_option snd (projection_of (projected_outputs nb a ! 0))"
    by (simp add: projection_of_output [OF t] projection_of_output [OF pos])
  have fed: "\<exists>prev. rnn_input m t =
                Some (Sub (Mul (Const 2) (Sigmoid (Add (MatMul prev ?W) ?b))) (Const 1))"
    if "test a" "0 < t"
  proof -
    from that(2) obtain t' where t': "t = Suc t'"
      by (cases t) simp_all
    from recurrent_outputs_gen_Suc [OF that(1) t [unfolded t']]
    obtain s where "recurrent_outputs nb a ! t =
        CellOutput (stacked_cell a) (feedback ?W ?b (recurrent_outputs nb a ! t')) s"
      unfolding t' by blast
    then have "rnn_input m t =
        Some (Sub (Mul (Const 2) (Sigmoid (Add (MatMul (recurrent_outputs nb a ! t') ?W) ?b))) (Const 1))"
      using t by (simp add: rnn_input_def m rnn_output_built feedback_def project_note_def)
    then show ?thesis
      by blast
  qed
  have vars: "{v \<in> nodes (projected_outputs nb a ! t). is_variable v} = {?W, ?b}"
    by (rule variables_of_output [OF t])
  have "?W = Variable ''note_projection'' ''weights'' [hidden_size a, nb] TruncatedNormalInitializer \<and>
        ?b = Variable ''note_projection'' ''bias'' [nb] TruncatedNormalInitializer \<and>
        variables g = [?W, ?b] \<and> outputs m = Some (projected_outputs nb a) \<and>
        (\<exists>X. projection_of (projected_outputs nb a ! t) = Some (X, ?W, ?b)) \<and>
        map_option snd (projection_of (projected_outputs nb a ! t)) =
          map_option snd (projection_of (projected_outputs nb a ! 0)) \<and>
        (test a \<and> 0 < t \<longrightarrow>
           (\<exists>prev. rnn_input m t =
              Some (Sub (Mul (Const 2) (Sigmoid (Add (MatMul prev ?W) ?b))) (Const 1)))) \<and>
        {v \<in> nodes (projected_outputs nb a ! t). is_variable v} = {?W, ?b}"
    using W b fields proj same fed vars by (intro conjI impI) simp_all
  then show ?thesis
    by (intro exI)
qed

text \<open>
  The theorem above at a scenario of the spec.
\<close>

theorem projection_is_shared_witness:
  "Model 88 scenario_generation =
     Inr (built_model 88 scenario_generation, built_graph 88 scenario_generation) \<and>
   (3::nat) < nat (sample_length scenario_generation) \<and>
   (\<exists>W b outs.
      W = Variable ''note_projection'' ''weights'' [hidden_size scenario_generation, 88]
            TruncatedNormalInitializer \<and>
      b = Variable ''note_projection'' ''bias'' [88] TruncatedNormalInitializer \<and>
      variables (built_graph 88 scenario_generation) = [W, b] \<and>
      outputs (built_model 88 scenario_generation) = Some outs \<and>
      (\<exists>X. projection_of (outs ! 3) = Some (X, W, b)) \<and>
      map_option snd (projection_of (outs ! 3)) = map_option snd (projection_of (outs ! 0)) \<and>
      (test scenario_generation \<and> (0::nat) < 3 \<longrightarrow>
         (\<exists>prev. rnn_input (built_model 88 scenario_generation) 3 =
            Some (Sub (Mul (Const 2) (Sigmoid (Add (MatMul prev W) b))) (Const 1)))) \<and>
      {v \<in> nodes (outs ! 3). is_variable v} = {W, b})"
proof -
  have h1: "Model 88 scenario_generation =
              Inr (built_model 88 scenario_generation, built_graph 88 scenario_generation)"
    by (rule scenario_generation_constructs)
  have h2: "(3::nat) < nat (sample_length scenario_generation)"
    by (simp add: scenario_generation_def)
  from projection_is_shared [OF h1 h2] h1 h2 show ?thesis
    by (intro conjI)
qed

text \<open>
  Claim C7. If a configuration constructs in training mode, the configuration that
  differs only in the mode flag constructs too, with the same input slots (and shapes).
  The training model's optimizer handle is the minimization step of an Adam optimizer
  with the configured learning rate, decay coefficients 0.9 and 0.999 and epsilon 1e-8,
  applied to the loss that is registered as summary; the generation model's optimizer
  handle is \<^verbatim>\<open>None\<close> and no loss is registered.
\<close>

theorem mode_flag_decides_optimizer:
  assumes "Model nb a = Inr (m, g)" and "\<not> test a"
  shows "\<exists>m' g' ins loss.
           Model nb (a\<lparr>test := True\<rparr>) = Inr (m', g') \<and>
           inputs m = Some ins \<and> inputs m' = Some ins \<and>
           map get_shape ins = replicate (nat (sample_length a)) (Some [batch_size a, nb]) \<and>
           opt_op m =
             Some (Minimize (AdamOptimizer (learning_rate a) 0.9 0.999 (1 / 10 ^ 8)) loss) \<and>
           summaries g = [(''training_loss'', loss)] \<and>
           opt_op m' = None \<and> summaries g' = []"
proof -
  let ?a = "a\<lparr>test := True\<rparr>"
  let ?ins = "map (input_slot nb a) [0 ..< slots a]"
  from Model_Inr [OF assms(1)] have m: "m = built_model nb a" and g: "g = built_graph nb a"
    by simp_all
  have "constructible nb ?a"
    by (rule constructible_test [OF Model_Inr_constructible [OF assms(1)]])
  then have gen: "Model nb ?a = Inr (built_model nb ?a, built_graph nb ?a)"
    by (rule Model_constructs)
  have ins: "inputs m = Some ?ins" "inputs (built_model nb ?a) = Some ?ins"
    by (simp_all add: m built_model_def slots_def input_slot_def)
  have shapes: "map get_shape ?ins = replicate (nat (sample_length a)) (Some [batch_size a, nb])"
    by (simp add: map_replicate_const slots_def comp_def)
  have opt: "opt_op m =
      Some (Minimize (AdamOptimizer (learning_rate a) 0.9 0.999 (1 / 10 ^ 8)) (loss_node nb a))"
    "summaries g = [(''training_loss'', loss_node nb a)]"
    using assms(2) by (simp_all add: m g built_model_def built_graph_def adam_def)
  have none: "opt_op (built_model nb ?a) = None" "summaries (built_graph nb ?a) = []"
    by (simp_all add: built_model_def built_graph_def)
  from gen ins shapes opt none show ?thesis
    by blast
qed

text \<open>
  The theorem above at a scenario of the spec.
\<close>

theorem mode_flag_decides_optimizer_witness:
  "Model 88 scenario_training =
     Inr (built_model 88 scenario_training, built_graph 88 scenario_training) \<and>
   \<not> test scenario_training \<and>
   (\<exists>m' g' ins loss.
      Model 88 (scenario_training\<lparr>test := True\<rparr>) = Inr (m', g') \<and>
      inputs (built_model 88 scenario_training) = Some ins \<and> inputs m' = Some ins \<and>
      map get_shape ins =
        replicate (nat (sample_length scenario_training)) (Some [batch_size scenario_training, 88]) \<and>
      opt_op (built_model 88 scenario_training) =
        Some (Minimize (AdamOptimizer (learning_rate scenario_training) 0.9 0.999 (1 / 10 ^ 8)) loss) \<and>
      summaries (built_graph 88 scenario_training) = [(''training_loss'', loss)] \<and>
      opt_op m' = None \<and> summaries g' = [])"
proof -
  have h1: "Model 88 scenario_training =
              Inr (built_model 88 scenario_training, built_graph 88 scenario_training)"
    by (rule scenario_training_constructs)
  have h2: "\<not> test scenario_training"
    by (simp add: scenario_training_def)
  from mode_flag_decides_optimizer [OF h1 h2] h1 h2 show ?thesis
    by (intro conjI)
qed

text \<open>
  Claim C8 as stated fails: the logits of the per-step cross-entropy are not the raw
  recurrent outputs (the nodes before the projection). In the training scenario of the
  spec the logits of step 0 differ from the raw recurrent output of step 0; they are the
  projected output of step 0.
\<close>

theorem loss_logits_counterexample:
  "\<not> isl (Model 88 scenario_training) \<and>
   map_option fst (loss_steps (fst (projr (Model 88 scenario_training))) ! 0) \<noteq>
     rnn_output (fst (projr (Model 88 scenario_training))) 0 \<and>
   map_option fst (loss_steps (fst (projr (Model 88 scenario_training))) ! 0) =
     map_option hd (outputs (fst (projr (Model 88 scenario_training))))"
proof -
  let ?m = "built_model 88 scenario_training"
  have t: "\<not> test scenario_training" and pos: "0 < slots scenario_training"
    by (simp_all add: scenario_training_def slots_def)
  have m: "fst (projr (Model 88 scenario_training)) = ?m" and ok: "\<not> isl (Model 88 scenario_training)"
    by (simp_all add: scenario_training_constructs)
  have steps: "loss_steps ?m ! 0 =
      Some (projected_outputs 88 scenario_training ! 0, target_slot 88 scenario_training 0,
            Ones [batch_size scenario_training, 88])"
    using pos by (simp add: loss_steps_built [OF t])
  have raw: "rnn_output ?m 0 = Some (recurrent_outputs 88 scenario_training ! 0)"
    by (rule rnn_output_built [OF pos])
  have neq: "projected_outputs 88 scenario_training ! 0 \<noteq> recurrent_outputs 88 scenario_training ! 0"
    using pos by (simp add: projected_outputs_def project_note_def)
  have outs: "outputs ?m = Some (projected_outputs 88 scenario_training)"
    by (simp add: built_model_def)
  have first: "hd (projected_outputs 88 scenario_training) =
               projected_outputs 88 scenario_training ! 0"
    using pos length_projected_outputs [of 88 scenario_training]
    by (cases "projected_outputs 88 scenario_training") simp_all
  show ?thesis
    unfolding m steps raw outs using ok neq first by simp
qed

text \<open>
  Claim C8, amended. In training mode the loss is the sequence loss whose term for time
  step \<open>t\<close> is the sigmoid cross-entropy between the projected output of
  step \<open>t\<close> (the node after the projection, before any sigmoid) and the
  target slot \<open>t\<close>, multiplied by an all-ones weight of the slot's shape;
  the terms are added, divided by the sum of the weights (plus 1e-12), summed and
  divided by the batch dimension.
\<close>

theorem loss_is_cross_entropy_of_projected_outputs:
  assumes "Model nb a = Inr (m, g)" and "\<not> test a" and "t < nat (sample_length a)"
  shows "\<exists>outs tgts W b opt terms raw.
           outputs m = Some outs \<and> targets m = Some tgts \<and> variables g = [W, b] \<and>
           opt_op m =
             Some (Minimize opt
               (Div (ReduceSum
                  (Div (AddN terms)
                     (Add (AddN (replicate (nat (sample_length a)) (Ones [batch_size a, nb])))
                        (Const (1 / 10 ^ 12)))))
                  (BatchDim (tgts ! 0)))) \<and>
           length terms = nat (sample_length a) \<and>
           terms ! t =
             Mul (SigmoidCrossEntropyWithLogits (outs ! t) (tgts ! t)) (Ones [batch_size a, nb]) \<and>
           loss_steps m ! t = Some (outs ! t, tgts ! t, Ones [batch_size a, nb]) \<and>
           rnn_output m t = Some raw \<and> outs ! t = project_note W b raw"
proof -
  let ?W = "projection_weights nb a" and ?b = "projection_bias nb"
  let ?tgts = "map (target_slot nb a) [0 ..< slots a]"
  let ?terms = "map (\<lambda>t. Mul (SigmoidCrossEntropyWithLogits
                                 (projected_outputs nb a ! t) (target_slot nb a t))
                              (Ones [batch_size a, nb])) [0 ..< slots a]"
  from Model_Inr [OF assms(1)] have m: "m = built_model nb a" and g: "g = built_graph nb a"
    by simp_all
  from assms(3) have t: "t < slots a" and pos: "0 < slots a"
    by (simp_all add: slots_def)
  have fields: "outputs m = Some (projected_outputs nb a)" "targets m = Some ?tgts"
    "variables g = [?W, ?b]"
    by (simp_all add: m g built_model_def built_graph_def)
  have opt: "opt_op m =
      Some (Minimize (adam a)
        (Div (ReduceSum
           (Div (AddN ?terms)
              (Add (AddN (replicate (nat (sample_length a)) (Ones [batch_size a, nb])))
                 (Const (1 / 10 ^ 12)))))
           (BatchDim (?tgts ! 0))))"
    using assms(2) pos by (simp add: m built_model_def loss_node_def slots_def)
  have terms: "length ?terms = nat (sample_length a)"
    "?terms ! t = Mul (SigmoidCrossEntropyWithLogits (projected_outputs nb a ! t) (?tgts ! t))
                    (Ones [batch_size a, nb])"
    using t by (simp_all add: slots_def)
  have steps: "loss_steps m ! t =
               Some (projected_outputs nb a ! t, ?tgts ! t, Ones [batch_size a, nb])"
    using t by (simp add: m loss_steps_built [OF assms(2)])
  have raw: "rnn_output m t = Some (recurrent_outputs nb a ! t)"
    "projected_outputs nb a ! t = project_note ?W ?b (recurrent_outputs nb a ! t)"
    using t by (simp_all add: m rnn_output_built projected_outputs_def)
  from fields opt terms steps raw show ?thesis
    by blast
qed

text \<open>
  The theorem above at a scenario of the spec.
\<close>

theorem loss_is_cross_entropy_of_projected_outputs_witness:
  "Model 88 scenario_training =
     Inr (built_model 88 scenario_training, built_graph 88 scenario_training) \<and>
   \<not> test scenario_training \<and> (1::nat) < nat (sample_length scenario_training) \<and>
   (\<exists>outs tgts W b opt terms raw.
      outputs (built_model 88 scenario_training) = Some outs \<and>
      targets (built_model 88 scenario_training) = Some tgts \<and>
      variables (built_graph 88 scenario_training) = [W, b] \<and>
      opt_op (built_model 88 scenario_training) =
        Some (Minimize opt
          (Div (ReduceSum
             (Div (AddN terms)
                (Add (AddN (replicate (nat (sample_length scenario_training))
                              (Ones [batch_size scenario_training, 88])))
                   (Const (1 / 10 ^ 12)))))
             (BatchDim (tgts ! 0)))) \<and>
      length terms = nat (sample_length scenario_training) \<and>
      terms ! 1 =
        Mul (SigmoidCrossEntropyWithLogits (outs ! 1) (tgts ! 1))
          (Ones [batch_size scenario_training, 88]) \<and>
      loss_steps (built_model 88 scenario_training) ! 1 =
        Some (outs ! 1, tgts ! 1, Ones [batch_size scenario_training, 88]) \<and>
      rnn_output (built_model 88 scenario_training) 1 = Some raw \<and>
      outs ! 1 = project_note W b raw)"
proof -
  have h1: "Model 88 scenario_training =
              Inr (built_model 88 scenario_training, built_graph 88 scenario_training)"
    by (rule scenario_training_constructs)
  have h2: "\<not> test scenario_training"
    by (simp add: scenario_training_def)
  have h3: "(1::nat) < nat (sample_length scenario_training)"
    by (simp add: scenario_training_def)
  from loss_is_cross_entropy_of_projected_outputs [OF h1 h2 h3] h1 h2 h3 show ?thesis
    by (intro conjI)
qed

end
